theory Spec2Isabelle
  imports Main "HOL-Library.Word"
begin

section \<open>Data model (main.go and the Kubernetes API types it uses)\<close>

type_synonym int32 = "32 word"

text \<open>Seconds since the epoch: the value of \<^verbatim>\<open>metav1.Now()\<close>.\<close>

type_synonym Time = nat

record NamespacedName =
  nn_Namespace :: string
  nn_Name :: string

type_synonym Request = NamespacedName

record OwnerReference =
  ref_APIVersion :: string
  ref_Kind :: string
  ref_Name :: string
  ref_UID :: string
  ref_Controller :: bool
  ref_BlockOwnerDeletion :: bool

record ObjectMeta =
  Name :: string
  Namespace :: string
  UID :: string
  Labels :: "string \<rightharpoonup> string"
  OwnerReferences :: "OwnerReference list"

subsection \<open>The custom resource: WebApp\<close>

record EnvVar =
  env_Name :: string
  env_Value :: string

record WebAppSpec =
  Image :: string
  Replicas :: int32
  Port :: int32
  Env :: "EnvVar list"

datatype ConditionStatus = ConditionTrue | ConditionFalse | ConditionUnknown

record Condition =
  cond_Type :: string
  cond_Status :: ConditionStatus
  cond_Reason :: string
  cond_Message :: string
  cond_LastTransitionTime :: Time

record WebAppStatus =
  AvailableReplicas :: int32
  Conditions :: "Condition list"

record WebApp =
  ObjectMeta :: ObjectMeta
  Spec :: WebAppSpec
  Status :: WebAppStatus

subsection \<open>The dependents: appsv1.Deployment and corev1.Service\<close>

record ContainerPort =
  cp_ContainerPort :: int32
  cp_Name :: string

record Container =
  c_Name :: string
  c_Image :: string
  c_Ports :: "ContainerPort list"
  c_Env :: "EnvVar list"

record PodTemplateSpec =
  tmpl_ObjectMeta :: ObjectMeta
  tmpl_Containers :: "Container list"

text \<open>
  \<^verbatim>\<open>Replicas\<close> is a \<^verbatim>\<open>*int32\<close> and \<^verbatim>\<open>Selector\<close> a \<^verbatim>\<open>*metav1.LabelSelector\<close>
  in the Go type: \<open>None\<close> is the nil pointer.
\<close>

record DeploymentSpec =
  ds_Replicas :: "int32 option"
  ds_Selector :: "(string \<rightharpoonup> string) option"
  ds_Template :: PodTemplateSpec

record DeploymentStatus =
  ds_AvailableReplicas :: int32

record Deployment =
  dep_ObjectMeta :: ObjectMeta
  dep_Spec :: DeploymentSpec
  dep_Status :: DeploymentStatus

datatype IntOrString = IntVal int32 | StrVal string

datatype Protocol = ProtocolTCP | ProtocolUDP | ProtocolSCTP

datatype ServiceType = ServiceTypeClusterIP | ServiceTypeNodePort | ServiceTypeLoadBalancer

record ServicePort =
  sp_Port :: int32
  sp_TargetPort :: IntOrString
  sp_Protocol :: Protocol
  sp_Name :: string

record ServiceSpec =
  ss_Selector :: "string \<rightharpoonup> string"
  ss_Ports :: "ServicePort list"
  ss_Type :: ServiceType

record Service =
  svc_ObjectMeta :: ObjectMeta
  svc_Spec :: ServiceSpec

subsection \<open>The result of a pass\<close>

text \<open>\<^verbatim>\<open>ctrl.Result\<close>; \<open>RequeueAfter\<close> is a \<^verbatim>\<open>time.Duration\<close>, counted in nanoseconds.\<close>

record Result =
  Requeue :: bool
  RequeueAfter :: int

definition Second :: int where
  "Second = 1000000000"

definition emptyMeta :: ObjectMeta where
  "emptyMeta = \<lparr>Name = [], Namespace = [], UID = [], Labels = Map.empty, OwnerReferences = []\<rparr>"

section \<open>Desired-state synthesis\<close>

text \<open>
  \<^verbatim>\<open>controllerutil.SetControllerReference(webapp, obj, r.Scheme)\<close> on a freshly built
  object of the owner's namespace, with the WebApp kind registered in the scheme as
  \<^verbatim>\<open>main\<close> does: the owner reference is appended. The source ignores the returned error.
\<close>

definition SetControllerReference :: "WebApp \<Rightarrow> ObjectMeta \<Rightarrow> ObjectMeta" where
  "SetControllerReference owner m =
     m\<lparr>OwnerReferences := OwnerReferences m @
          [\<lparr>ref_APIVersion = ''example.com/v1'', ref_Kind = ''WebApp'',
            ref_Name = Name (ObjectMeta owner), ref_UID = UID (ObjectMeta owner),
            ref_Controller = True, ref_BlockOwnerDeletion = True\<rparr>]\<rparr>"

text \<open>
  The loop of \<^verbatim>\<open>deploymentForWebApp\<close> that appends one converted entry per environment
  entry of the spec. \<^verbatim>\<open>corev1.EnvVar\<close> is used with its name and value only, so it shares
  the record of the WebApp's own \<^verbatim>\<open>EnvVar\<close>.
\<close>

fun appendEnv :: "EnvVar list \<Rightarrow> EnvVar list \<Rightarrow> EnvVar list" where
  "appendEnv envVars [] = envVars"
| "appendEnv envVars (env # rest) =
     appendEnv (envVars @ [\<lparr>env_Name = env_Name env, env_Value = env_Value env\<rparr>]) rest"

definition deploymentForWebApp :: "WebApp \<Rightarrow> Deployment" where
  "deploymentForWebApp webapp =
     (let labels = [''app'' \<mapsto> Name (ObjectMeta webapp),
                    ''managed-by'' \<mapsto> ''webapp-operator''];
          replicas = Replicas (Spec webapp);
          port = Port (Spec webapp);
          port = (if port = 0 then 8080 else port);
          envVars = appendEnv [] (Env (Spec webapp));
          dep = \<lparr>dep_ObjectMeta = emptyMeta\<lparr>Name := Name (ObjectMeta webapp),
                                              Namespace := Namespace (ObjectMeta webapp),
                                              Labels := labels\<rparr>,
                 dep_Spec = \<lparr>ds_Replicas = Some replicas,
                             ds_Selector = Some labels,
                             ds_Template =
                               \<lparr>tmpl_ObjectMeta = emptyMeta\<lparr>Labels := labels\<rparr>,
                                tmpl_Containers =
                                  [\<lparr>c_Name = Name (ObjectMeta webapp),
                                    c_Image = Image (Spec webapp),
                                    c_Ports = [\<lparr>cp_ContainerPort = port, cp_Name = ''http''\<rparr>],
                                    c_Env = envVars\<rparr>]\<rparr>\<rparr>,
                 dep_Status = \<lparr>ds_AvailableReplicas = 0\<rparr>\<rparr>
      in dep\<lparr>dep_ObjectMeta := SetControllerReference webapp (dep_ObjectMeta dep)\<rparr>)"

definition serviceForWebApp :: "WebApp \<Rightarrow> Service" where
  "serviceForWebApp webapp =
     (let labels = [''app'' \<mapsto> Name (ObjectMeta webapp),
                    ''managed-by'' \<mapsto> ''webapp-operator''];
          port = Port (Spec webapp);
          port = (if port = 0 then 8080 else port);
          svc = \<lparr>svc_ObjectMeta = emptyMeta\<lparr>Name := Name (ObjectMeta webapp),
                                              Namespace := Namespace (ObjectMeta webapp),
                                              Labels := labels\<rparr>,
                 svc_Spec = \<lparr>ss_Selector = labels,
                             ss_Ports = [\<lparr>sp_Port = 80,
                                          sp_TargetPort = IntVal port,
                                          sp_Protocol = ProtocolTCP,
                                          sp_Name = ''http''\<rparr>],
                             ss_Type = ServiceTypeClusterIP\<rparr>\<rparr>
      in svc\<lparr>svc_ObjectMeta := SetControllerReference webapp (svc_ObjectMeta svc)\<rparr>)"

section \<open>The state store\<close>

text \<open>
  Modelled from the spec: the State Store Client of section 6, which the repository
  consumes through \<^verbatim>\<open>client.Client\<close> of controller-runtime and does not implement.
  The store holds the objects of each kind by identity. \<open>faults\<close> is the schedule of
  failures of the coming calls (\<open>None\<close>, or an exhausted schedule: the call is served
  from the contents of the store), \<open>trace\<close> the calls made so far, each with its outcome.
  A call that fails leaves the objects as they were.
\<close>

datatype store_error = NotFound | AlreadyExists | Conflict | Unavailable

datatype verb = Get | Create | Update | StatusUpdate

datatype kind = WebAppKind | DeploymentKind | ServiceKind

record call =
  call_verb :: verb
  call_kind :: kind
  call_key :: NamespacedName
  call_error :: "store_error option"

record cluster =
  webapps :: "NamespacedName \<rightharpoonup> WebApp"
  deployments :: "NamespacedName \<rightharpoonup> Deployment"
  services :: "NamespacedName \<rightharpoonup> Service"
  faults :: "store_error option list"
  trace :: "call list"

definition keyOf :: "ObjectMeta \<Rightarrow> NamespacedName" where
  "keyOf m = \<lparr>nn_Namespace = Namespace m, nn_Name = Name m\<rparr>"

definition next_fault :: "cluster \<Rightarrow> store_error option" where
  "next_fault s = (case faults s of [] \<Rightarrow> None | f # _ \<Rightarrow> f)"

definition record_call ::
  "verb \<Rightarrow> kind \<Rightarrow> NamespacedName \<Rightarrow> store_error option \<Rightarrow> cluster \<Rightarrow> cluster" where
  "record_call v k key e s =
     s\<lparr>faults := tl (faults s),
       trace := trace s @ [\<lparr>call_verb = v, call_kind = k, call_key = key, call_error = e\<rparr>]\<rparr>"

definition error_of :: "store_error + 'a \<Rightarrow> store_error option" where
  "error_of r = (case r of Inl e \<Rightarrow> Some e | Inr _ \<Rightarrow> None)"

definition GetWebApp :: "NamespacedName \<Rightarrow> cluster \<Rightarrow> (store_error + WebApp) \<times> cluster" where
  "GetWebApp key s =
     (let r = (case next_fault s of
                 Some e \<Rightarrow> Inl e
               | None \<Rightarrow> (case webapps s key of None \<Rightarrow> Inl NotFound | Some obj \<Rightarrow> Inr obj))
      in (r, record_call Get WebAppKind key (error_of r) s))"

definition GetDeployment ::
  "NamespacedName \<Rightarrow> cluster \<Rightarrow> (store_error + Deployment) \<times> cluster" where
  "GetDeployment key s =
     (let r = (case next_fault s of
                 Some e \<Rightarrow> Inl e
               | None \<Rightarrow> (case deployments s key of None \<Rightarrow> Inl NotFound | Some obj \<Rightarrow> Inr obj))
      in (r, record_call Get DeploymentKind key (error_of r) s))"

definition GetService :: "NamespacedName \<Rightarrow> cluster \<Rightarrow> (store_error + Service) \<times> cluster" where
  "GetService key s =
     (let r = (case next_fault s of
                 Some e \<Rightarrow> Inl e
               | None \<Rightarrow> (case services s key of None \<Rightarrow> Inl NotFound | Some obj \<Rightarrow> Inr obj))
      in (r, record_call Get ServiceKind key (error_of r) s))"

definition CreateDeployment :: "Deployment \<Rightarrow> cluster \<Rightarrow> store_error option \<times> cluster" where
  "CreateDeployment obj s =
     (let key = keyOf (dep_ObjectMeta obj);
          e = (case next_fault s of
                 Some e \<Rightarrow> Some e
               | None \<Rightarrow> (case deployments s key of None \<Rightarrow> None | Some _ \<Rightarrow> Some AlreadyExists));
          s' = (case e of None \<Rightarrow> s\<lparr>deployments := (deployments s)(key \<mapsto> obj)\<rparr> | Some _ \<Rightarrow> s)
      in (e, record_call Create DeploymentKind key e s'))"

definition CreateService :: "Service \<Rightarrow> cluster \<Rightarrow> store_error option \<times> cluster" where
  "CreateService obj s =
     (let key = keyOf (svc_ObjectMeta obj);
          e = (case next_fault s of
                 Some e \<Rightarrow> Some e
               | None \<Rightarrow> (case services s key of None \<Rightarrow> None | Some _ \<Rightarrow> Some AlreadyExists));
          s' = (case e of None \<Rightarrow> s\<lparr>services := (services s)(key \<mapsto> obj)\<rparr> | Some _ \<Rightarrow> s)
      in (e, record_call Create ServiceKind key e s'))"

definition UpdateDeployment :: "Deployment \<Rightarrow> cluster \<Rightarrow> store_error option \<times> cluster" where
  "UpdateDeployment obj s =
     (let key = keyOf (dep_ObjectMeta obj);
          e = (case next_fault s of
                 Some e \<Rightarrow> Some e
               | None \<Rightarrow> (case deployments s key of None \<Rightarrow> Some NotFound | Some _ \<Rightarrow> None));
          s' = (case e of None \<Rightarrow> s\<lparr>deployments := (deployments s)(key \<mapsto> obj)\<rparr> | Some _ \<Rightarrow> s)
      in (e, record_call Update DeploymentKind key e s'))"

text \<open>
  The status channel (\<^verbatim>\<open>r.Status().Update\<close>) replaces the status of the stored object
  and nothing else of it.
\<close>

definition StatusUpdateWebApp :: "WebApp \<Rightarrow> cluster \<Rightarrow> store_error option \<times> cluster" where
  "StatusUpdateWebApp obj s =
     (let key = keyOf (ObjectMeta obj);
          e = (case next_fault s of
                 Some e \<Rightarrow> Some e
               | None \<Rightarrow> (case webapps s key of None \<Rightarrow> Some NotFound | Some _ \<Rightarrow> None));
          s' = (case (e, webapps s key) of
                  (None, Some old) \<Rightarrow>
                    s\<lparr>webapps := (webapps s)(key \<mapsto> old\<lparr>Status := Status obj\<rparr>)\<rparr>
                | _ \<Rightarrow> s)
      in (e, record_call StatusUpdate WebAppKind key e s'))"

definition IsNotFound :: "store_error \<Rightarrow> bool" where
  "IsNotFound err = (err = NotFound)"

section \<open>Formatting\<close>

text \<open>The verb \<^verbatim>\<open>%d\<close> of \<^verbatim>\<open>fmt.Sprintf\<close> on an \<^verbatim>\<open>int32\<close>: signed decimal.\<close>

fun decimal :: "nat \<Rightarrow> string" where
  "decimal n =
     (if n < 10 then [''0123456789'' ! n]
      else decimal (n div 10) @ [''0123456789'' ! (n mod 10)])"

declare decimal.simps [simp del]

definition fmt_d :: "int32 \<Rightarrow> string" where
  "fmt_d x = (if sint x < 0 then ''-'' @ decimal (nat (- sint x)) else decimal (nat (sint x)))"

section \<open>The reconciler\<close>

text \<open>
  The outcome of a pass: \<open>Inr\<close> the result returned with a nil error, \<open>Inl\<close> a failure,
  which is either the error the pass returns (with the empty result) or the panic of a
  nil pointer dereference.
\<close>

datatype failure = StoreFailure store_error | NilPointerDereference

definition Reconcile :: "Time \<Rightarrow> Request \<Rightarrow> cluster \<Rightarrow> (failure + Result) \<times> cluster" where
  "Reconcile now req s =
     (case GetWebApp req s of
        (Inl err, s) \<Rightarrow>
          if IsNotFound err then (Inr \<lparr>Requeue = False, RequeueAfter = 0\<rparr>, s)
          else (Inl (StoreFailure err), s)
      | (Inr webapp, s) \<Rightarrow>
          (case GetDeployment \<lparr>nn_Namespace = Namespace (ObjectMeta webapp),
                               nn_Name = Name (ObjectMeta webapp)\<rparr> s of
             (Inl err, s) \<Rightarrow>
               if IsNotFound err then
                 (let dep = deploymentForWebApp webapp
                  in case CreateDeployment dep s of
                       (Some err, s) \<Rightarrow> (Inl (StoreFailure err), s)
                     | (None, s) \<Rightarrow> (Inr \<lparr>Requeue = True, RequeueAfter = 0\<rparr>, s))
               else (Inl (StoreFailure err), s)
           | (Inr deployment, s) \<Rightarrow>
               (case ds_Replicas (dep_Spec deployment) of
                  None \<Rightarrow> (Inl NilPointerDereference, s)
                | Some replicas \<Rightarrow>
                    if replicas \<noteq> Replicas (Spec webapp) then
                      (let deployment =
                             deployment\<lparr>dep_Spec := (dep_Spec deployment)
                                          \<lparr>ds_Replicas := Some (Replicas (Spec webapp))\<rparr>\<rparr>
                       in case UpdateDeployment deployment s of
                            (Some err, s) \<Rightarrow> (Inl (StoreFailure err), s)
                          | (None, s) \<Rightarrow> (Inr \<lparr>Requeue = True, RequeueAfter = 0\<rparr>, s))
                    else
                      (case GetService \<lparr>nn_Namespace = Namespace (ObjectMeta webapp),
                                        nn_Name = Name (ObjectMeta webapp)\<rparr> s of
                         (Inl err, s) \<Rightarrow>
                           if IsNotFound err then
                             (let svc = serviceForWebApp webapp
                              in case CreateService svc s of
                                   (Some err, s) \<Rightarrow> (Inl (StoreFailure err), s)
                                 | (None, s) \<Rightarrow> (Inr \<lparr>Requeue = True, RequeueAfter = 0\<rparr>, s))
                           else (Inl (StoreFailure err), s)
                       | (Inr service, s) \<Rightarrow>
                           (let webapp =
                                  webapp\<lparr>Status := (Status webapp)
                                    \<lparr>AvailableReplicas :=
                                       ds_AvailableReplicas (dep_Status deployment)\<rparr>\<rparr>;
                                condition =
                                  \<lparr>cond_Type = ''Ready'',
                                   cond_Status = ConditionTrue,
                                   cond_Reason = ''DeploymentReady'',
                                   cond_Message =
                                     ''Deployment has ''
                                     @ fmt_d (ds_AvailableReplicas (dep_Status deployment))
                                     @ ''/'' @ fmt_d (Replicas (Spec webapp))
                                     @ '' replicas available'',
                                   cond_LastTransitionTime = now\<rparr>;
                                condition =
                                  (if ds_AvailableReplicas (dep_Status deployment)
                                      \<noteq> Replicas (Spec webapp)
                                   then condition\<lparr>cond_Status := ConditionFalse,
                                                  cond_Reason := ''DeploymentNotReady''\<rparr>
                                   else condition);
                                webapp = webapp\<lparr>Status := (Status webapp)
                                                  \<lparr>Conditions := [condition]\<rparr>\<rparr>
                            in case StatusUpdateWebApp webapp s of
                                 (Some err, s) \<Rightarrow> (Inl (StoreFailure err), s)
                               | (None, s) \<Rightarrow>
                                   (Inr \<lparr>Requeue = False, RequeueAfter = 30 * Second\<rparr>, s))))))"

section \<open>Auxiliary notions for the statements\<close>

text \<open>The next \<open>n\<close> calls to the store are not scheduled to fail.\<close>

fun fault_free :: "nat \<Rightarrow> store_error option list \<Rightarrow> bool" where
  "fault_free 0 fs = True"
| "fault_free (Suc n) [] = True"
| "fault_free (Suc n) (f # fs) = (f = None \<and> fault_free n fs)"

text \<open>The status that STEP 5 of \<open>Reconcile\<close> computes, in closed form.\<close>

definition status_for :: "Time \<Rightarrow> WebApp \<Rightarrow> Deployment \<Rightarrow> WebAppStatus" where
  "status_for now w d =
     \<lparr>AvailableReplicas = ds_AvailableReplicas (dep_Status d),
      Conditions =
        [\<lparr>cond_Type = ''Ready'',
          cond_Status = (if ds_AvailableReplicas (dep_Status d) = Replicas (Spec w)
                         then ConditionTrue else ConditionFalse),
          cond_Reason = (if ds_AvailableReplicas (dep_Status d) = Replicas (Spec w)
                         then ''DeploymentReady'' else ''DeploymentNotReady''),
          cond_Message = ''Deployment has '' @ fmt_d (ds_AvailableReplicas (dep_Status d))
                         @ ''/'' @ fmt_d (Replicas (Spec w)) @ '' replicas available'',
          cond_LastTransitionTime = now\<rparr>]\<rparr>"

text \<open>The calls a pass has added to the trace, and the objects it has left as they were.\<close>

definition pass_calls :: "cluster \<Rightarrow> cluster \<Rightarrow> call list" where
  "pass_calls s s' = drop (length (trace s)) (trace s')"

definition same_objects :: "cluster \<Rightarrow> cluster \<Rightarrow> bool" where
  "same_objects s s' \<longleftrightarrow>
     webapps s' = webapps s \<and> deployments s' = deployments s \<and> services s' = services s"

text \<open>
  What a pass owes to a failing call: when a call of the pass has failed (an error other
  than NotFound on a read), the pass returns that error, that call is its last one, the
  calls before it are reads, and \<open>same\<close> holds (used for: no object has changed).
\<close>

definition pass_ok :: "call list \<Rightarrow> failure + Result \<Rightarrow> bool \<Rightarrow> bool" where
  "pass_ok calls r same \<longleftrightarrow>
     (\<forall>c e. c \<in> set calls \<longrightarrow> call_error c = Some e \<longrightarrow>
        \<not> (call_verb c = Get \<and> e = NotFound) \<longrightarrow>
        r = Inl (StoreFailure e) \<and> last calls = c \<and>
        (\<forall>p \<in> set (butlast calls). call_verb p = Get) \<and> same)"

definition tail_ok :: "cluster \<Rightarrow> (failure + Result) \<times> cluster \<Rightarrow> bool" where
  "tail_ok s p \<longleftrightarrow>
     (\<exists>calls. trace (snd p) = trace s @ calls \<and>
        pass_ok calls (fst p) (same_objects s (snd p)))"

text \<open>
  The cluster's own workload controller, outside the repository: it reports \<open>a\<close>
  available replicas in the status of the workload stored under \<open>key\<close>.
\<close>

definition report_available :: "NamespacedName \<Rightarrow> int32 \<Rightarrow> cluster \<Rightarrow> cluster" where
  "report_available key a s =
     (case deployments s key of
        None \<Rightarrow> s
      | Some d \<Rightarrow>
          s\<lparr>deployments := (deployments s)
               (key \<mapsto> d\<lparr>dep_Status := (dep_Status d)\<lparr>ds_AvailableReplicas := a\<rparr>\<rparr>)\<rparr>)"

text \<open>
  The rest of a pass from each numbered step of \<open>Reconcile\<close> on, given what the earlier
  steps have fetched (lemma \<open>Reconcile_steps\<close> relates them to \<open>Reconcile\<close>).
\<close>

definition step5 :: "Time \<Rightarrow> WebApp \<Rightarrow> Deployment \<Rightarrow> cluster \<Rightarrow> (failure + Result) \<times> cluster" where
  "step5 now webapp deployment s =
     (case StatusUpdateWebApp (webapp\<lparr>Status := status_for now webapp deployment\<rparr>) s of
        (Some err, s) \<Rightarrow> (Inl (StoreFailure err), s)
      | (None, s) \<Rightarrow> (Inr \<lparr>Requeue = False, RequeueAfter = 30 * Second\<rparr>, s))"

definition step4 :: "Time \<Rightarrow> WebApp \<Rightarrow> Deployment \<Rightarrow> cluster \<Rightarrow> (failure + Result) \<times> cluster" where
  "step4 now webapp deployment s =
     (case GetService (keyOf (ObjectMeta webapp)) s of
        (Inl err, s) \<Rightarrow>
          if err = NotFound then
            (case CreateService (serviceForWebApp webapp) s of
               (Some err, s) \<Rightarrow> (Inl (StoreFailure err), s)
             | (None, s) \<Rightarrow> (Inr \<lparr>Requeue = True, RequeueAfter = 0\<rparr>, s))
          else (Inl (StoreFailure err), s)
      | (Inr service, s) \<Rightarrow> step5 now webapp deployment s)"

definition step3 :: "Time \<Rightarrow> WebApp \<Rightarrow> Deployment \<Rightarrow> cluster \<Rightarrow> (failure + Result) \<times> cluster" where
  "step3 now webapp deployment s =
     (case ds_Replicas (dep_Spec deployment) of
        None \<Rightarrow> (Inl NilPointerDereference, s)
      | Some replicas \<Rightarrow>
          if replicas \<noteq> Replicas (Spec webapp) then
            (case UpdateDeployment
                    (deployment\<lparr>dep_Spec := (dep_Spec deployment)
                                  \<lparr>ds_Replicas := Some (Replicas (Spec webapp))\<rparr>\<rparr>) s of
               (Some err, s) \<Rightarrow> (Inl (StoreFailure err), s)
             | (None, s) \<Rightarrow> (Inr \<lparr>Requeue = True, RequeueAfter = 0\<rparr>, s))
          else step4 now webapp deployment s)"

definition step2 :: "Time \<Rightarrow> WebApp \<Rightarrow> cluster \<Rightarrow> (failure + Result) \<times> cluster" where
  "step2 now webapp s =
     (case GetDeployment (keyOf (ObjectMeta webapp)) s of
        (Inl err, s) \<Rightarrow>
          if err = NotFound then
            (case CreateDeployment (deploymentForWebApp webapp) s of
               (Some err, s) \<Rightarrow> (Inl (StoreFailure err), s)
             | (None, s) \<Rightarrow> (Inr \<lparr>Requeue = True, RequeueAfter = 0\<rparr>, s))
          else (Inl (StoreFailure err), s)
      | (Inr deployment, s) \<Rightarrow> step3 now webapp deployment s)"

section \<open>Example clusters\<close>

definition ex_key :: NamespacedName where
  "ex_key = \<lparr>nn_Namespace = ''default'', nn_Name = ''nginx-app''\<rparr>"

definition ex_webapp :: WebApp where
  "ex_webapp =
     \<lparr>ObjectMeta = emptyMeta\<lparr>Name := ''nginx-app'', Namespace := ''default'', UID := ''uid-1''\<rparr>,
      Spec = \<lparr>Image = ''nginx:1.25'', Replicas = 3, Port = 80, Env = []\<rparr>,
      Status = \<lparr>AvailableReplicas = 0, Conditions = []\<rparr>\<rparr>"

definition ex_webapp_noport :: WebApp where
  "ex_webapp_noport = ex_webapp\<lparr>Spec := (Spec ex_webapp)\<lparr>Port := 0\<rparr>\<rparr>"

text \<open>The declaration alone, no dependents, no failures scheduled.\<close>

definition ex_fresh :: cluster where
  "ex_fresh =
     \<lparr>webapps = [ex_key \<mapsto> ex_webapp], deployments = Map.empty, services = Map.empty,
      faults = [], trace = []\<rparr>"

text \<open>Both dependents exist, the workload reports 3 available replicas.\<close>

definition ex_deployment :: Deployment where
  "ex_deployment = (deploymentForWebApp ex_webapp)\<lparr>dep_Status := \<lparr>ds_AvailableReplicas = 3\<rparr>\<rparr>"

definition ex_converged :: cluster where
  "ex_converged =
     \<lparr>webapps = [ex_key \<mapsto> ex_webapp],
      deployments = [ex_key \<mapsto> ex_deployment],
      services = [ex_key \<mapsto> serviceForWebApp ex_webapp],
      faults = [], trace = []\<rparr>"

text \<open>The converged cluster after someone has deleted the workload.\<close>

definition ex_deleted :: cluster where
  "ex_deleted = ex_converged\<lparr>deployments := Map.empty\<rparr>"

text \<open>An identity with no declaration in the example clusters.\<close>

definition ex_absent_key :: NamespacedName where
  "ex_absent_key = \<lparr>nn_Namespace = ''default'', nn_Name = ''gone''\<rparr>"

text \<open>Converged, and the status written at time 100 already says Ready.\<close>

definition ex_ready :: cluster where
  "ex_ready =
     ex_converged\<lparr>webapps :=
       [ex_key \<mapsto> ex_webapp\<lparr>Status := status_for 100 ex_webapp ex_deployment\<rparr>]\<rparr>"

text \<open>The spec asks for 5 replicas, the workload still has 3.\<close>

definition ex_webapp5 :: WebApp where
  "ex_webapp5 = ex_webapp\<lparr>Spec := (Spec ex_webapp)\<lparr>Replicas := 5\<rparr>\<rparr>"

definition ex_scaled :: cluster where
  "ex_scaled = ex_converged\<lparr>webapps := [ex_key \<mapsto> ex_webapp5]\<rparr>"

text \<open>Converged, and the fourth call to the store is scheduled to fail with a conflict.\<close>

definition ex_conflict :: cluster where
  "ex_conflict = ex_converged\<lparr>faults := [None, None, None, Some Conflict]\<rparr>"

text \<open>A workload created by someone else, with no replica count.\<close>

definition ex_deployment_unset :: Deployment where
  "ex_deployment_unset = ex_deployment\<lparr>dep_Spec := (dep_Spec ex_deployment)\<lparr>ds_Replicas := None\<rparr>\<rparr>"

definition ex_unset :: cluster where
  "ex_unset = ex_converged\<lparr>deployments := [ex_key \<mapsto> ex_deployment_unset]\<rparr>"

section \<open>Lemmas on the store\<close>

lemma fault_free_Nil [simp]: "fault_free n []"
  by (cases n) simp_all

lemma fault_free_next: "fault_free n (faults s) \<Longrightarrow> 0 < n \<Longrightarrow> next_fault s = None"
  by (cases "faults s"; cases n) (simp_all add: next_fault_def)

lemma fault_free_tl: "fault_free n fs \<Longrightarrow> fault_free (n - 1) (tl fs)"
  by (cases fs; cases n) simp_all

lemma fault_free_mono: "fault_free n fs \<Longrightarrow> m \<le> n \<Longrightarrow> fault_free m fs"
proof (induction n fs arbitrary: m rule: fault_free.induct)
  case (3 n f fs)
  then show ?case by (cases m) simp_all
qed simp_all

lemma fault_free_drop: "fault_free (k + n) fs \<Longrightarrow> fault_free n (drop k fs)"
proof (induction k arbitrary: fs)
  case (Suc k)
  then show ?case by (cases fs) simp_all
qed simp

lemma record_call_sel [simp]:
  "webapps (record_call v k key e s) = webapps s"
  "deployments (record_call v k key e s) = deployments s"
  "services (record_call v k key e s) = services s"
  "faults (record_call v k key e s) = tl (faults s)"
  "trace (record_call v k key e s) =
     trace s @ [\<lparr>call_verb = v, call_kind = k, call_key = key, call_error = e\<rparr>]"
  by (simp_all add: record_call_def)

lemma fault_free_record_call:
  "fault_free n (faults s) \<Longrightarrow> fault_free (n - 1) (faults (record_call v k key e s))"
  using fault_free_tl [of n "faults s"] by simp

lemma GetWebApp_found:
  "next_fault s = None \<Longrightarrow> webapps s key = Some w \<Longrightarrow>
   GetWebApp key s = (Inr w, record_call Get WebAppKind key None s)"
  by (simp add: GetWebApp_def error_of_def)

lemma GetDeployment_found:
  "next_fault s = None \<Longrightarrow> deployments s key = Some d \<Longrightarrow>
   GetDeployment key s = (Inr d, record_call Get DeploymentKind key None s)"
  by (simp add: GetDeployment_def error_of_def)

lemma GetDeployment_absent:
  "next_fault s = None \<Longrightarrow> deployments s key = None \<Longrightarrow>
   GetDeployment key s = (Inl NotFound, record_call Get DeploymentKind key (Some NotFound) s)"
  by (simp add: GetDeployment_def error_of_def)

lemma GetService_found:
  "next_fault s = None \<Longrightarrow> services s key = Some d \<Longrightarrow>
   GetService key s = (Inr d, record_call Get ServiceKind key None s)"
  by (simp add: GetService_def error_of_def)

lemma GetService_absent:
  "next_fault s = None \<Longrightarrow> services s key = None \<Longrightarrow>
   GetService key s = (Inl NotFound, record_call Get ServiceKind key (Some NotFound) s)"
  by (simp add: GetService_def error_of_def)

lemma CreateDeployment_fresh:
  "next_fault s = None \<Longrightarrow> deployments s (keyOf (dep_ObjectMeta d)) = None \<Longrightarrow>
   CreateDeployment d s =
     (None, record_call Create DeploymentKind (keyOf (dep_ObjectMeta d)) None
              (s\<lparr>deployments := (deployments s)(keyOf (dep_ObjectMeta d) \<mapsto> d)\<rparr>))"
  by (simp add: CreateDeployment_def Let_def)

lemma CreateService_fresh:
  "next_fault s = None \<Longrightarrow> services s (keyOf (svc_ObjectMeta d)) = None \<Longrightarrow>
   CreateService d s =
     (None, record_call Create ServiceKind (keyOf (svc_ObjectMeta d)) None
              (s\<lparr>services := (services s)(keyOf (svc_ObjectMeta d) \<mapsto> d)\<rparr>))"
  by (simp add: CreateService_def Let_def)

lemma UpdateDeployment_present:
  "next_fault s = None \<Longrightarrow> deployments s (keyOf (dep_ObjectMeta d)) = Some old \<Longrightarrow>
   UpdateDeployment d s =
     (None, record_call Update DeploymentKind (keyOf (dep_ObjectMeta d)) None
              (s\<lparr>deployments := (deployments s)(keyOf (dep_ObjectMeta d) \<mapsto> d)\<rparr>))"
  by (simp add: UpdateDeployment_def Let_def)

lemma StatusUpdateWebApp_present:
  "next_fault s = None \<Longrightarrow> webapps s (keyOf (ObjectMeta w)) = Some old \<Longrightarrow>
   StatusUpdateWebApp w s =
     (None, record_call StatusUpdate WebAppKind (keyOf (ObjectMeta w)) None
              (s\<lparr>webapps := (webapps s)(keyOf (ObjectMeta w) \<mapsto> old\<lparr>Status := Status w\<rparr>)\<rparr>))"
  by (simp add: StatusUpdateWebApp_def Let_def)

lemma keyOf_deploymentForWebApp:
  "keyOf (dep_ObjectMeta (deploymentForWebApp w)) = keyOf (ObjectMeta w)"
  by (simp add: deploymentForWebApp_def keyOf_def SetControllerReference_def emptyMeta_def Let_def)

lemma keyOf_serviceForWebApp:
  "keyOf (svc_ObjectMeta (serviceForWebApp w)) = keyOf (ObjectMeta w)"
  by (simp add: serviceForWebApp_def keyOf_def SetControllerReference_def emptyMeta_def Let_def)

lemma status_overwrite:
  "(st :: WebAppStatus)\<lparr>AvailableReplicas := a, Conditions := c\<rparr> =
     \<lparr>AvailableReplicas = a, Conditions = c\<rparr>"
  by (cases st) simp

lemma key_unfold:
  "keyOf (ObjectMeta w) = req \<Longrightarrow>
   \<lparr>nn_Namespace = Namespace (ObjectMeta w), nn_Name = Name (ObjectMeta w)\<rparr> = req"
  by (simp add: keyOf_def)

lemma tl3: "tl (tl (tl xs)) = drop 3 xs"
  by (simp add: numeral_3_eq_3 drop_Suc)

lemma tl4: "tl (tl (tl (tl xs))) = drop 4 xs"
  by (simp add: eval_nat_numeral drop_Suc)

lemma report_available_sel [simp]:
  "webapps (report_available key a s) = webapps s"
  "services (report_available key a s) = services s"
  "faults (report_available key a s) = faults s"
  "trace (report_available key a s) = trace s"
  by (simp_all add: report_available_def split: option.splits)

lemma report_available_deployment:
  "deployments s key = Some d \<Longrightarrow>
   deployments (report_available key a s) key =
     Some (d\<lparr>dep_Status := (dep_Status d)\<lparr>ds_AvailableReplicas := a\<rparr>\<rparr>)"
  by (simp add: report_available_def)

lemma same_objects_refl [simp]: "same_objects s s"
  by (simp add: same_objects_def)

lemma same_objects_record_call [simp]: "same_objects s (record_call v k key e s)"
  by (simp add: same_objects_def)

lemma same_objects_trans: "same_objects s s1 \<Longrightarrow> same_objects s1 s2 \<Longrightarrow> same_objects s s2"
  by (simp add: same_objects_def)

lemma Get_snd:
  "snd (GetWebApp key s) = record_call Get WebAppKind key (error_of (fst (GetWebApp key s))) s"
  "snd (GetDeployment key s) =
     record_call Get DeploymentKind key (error_of (fst (GetDeployment key s))) s"
  "snd (GetService key s) = record_call Get ServiceKind key (error_of (fst (GetService key s))) s"
  by (simp_all add: GetWebApp_def GetDeployment_def GetService_def Let_def)

lemma CreateDeployment_call:
  "CreateDeployment obj s = (e, s') \<Longrightarrow>
   trace s' = trace s @ [\<lparr>call_verb = Create, call_kind = DeploymentKind,
                           call_key = keyOf (dep_ObjectMeta obj), call_error = e\<rparr>] \<and>
   (e \<noteq> None \<longrightarrow> same_objects s s')"
  by (auto simp: CreateDeployment_def Let_def same_objects_def split: option.splits)

lemma CreateService_call:
  "CreateService obj s = (e, s') \<Longrightarrow>
   trace s' = trace s @ [\<lparr>call_verb = Create, call_kind = ServiceKind,
                           call_key = keyOf (svc_ObjectMeta obj), call_error = e\<rparr>] \<and>
   (e \<noteq> None \<longrightarrow> same_objects s s')"
  by (auto simp: CreateService_def Let_def same_objects_def split: option.splits)

lemma UpdateDeployment_call:
  "UpdateDeployment obj s = (e, s') \<Longrightarrow>
   trace s' = trace s @ [\<lparr>call_verb = Update, call_kind = DeploymentKind,
                           call_key = keyOf (dep_ObjectMeta obj), call_error = e\<rparr>] \<and>
   (e \<noteq> None \<longrightarrow> same_objects s s')"
  by (auto simp: UpdateDeployment_def Let_def same_objects_def split: option.splits)

lemma StatusUpdateWebApp_call:
  "StatusUpdateWebApp obj s = (e, s') \<Longrightarrow>
   trace s' = trace s @ [\<lparr>call_verb = StatusUpdate, call_kind = WebAppKind,
                           call_key = keyOf (ObjectMeta obj), call_error = e\<rparr>] \<and>
   (e \<noteq> None \<longrightarrow> same_objects s s')"
  by (auto simp: StatusUpdateWebApp_def Let_def same_objects_def split: option.splits)

section \<open>The passes of the reconciler\<close>

lemma step5_block:
  "step5 now webapp deployment s =
   (let webapp = webapp\<lparr>Status := (Status webapp)
                    \<lparr>AvailableReplicas := ds_AvailableReplicas (dep_Status deployment)\<rparr>\<rparr>;
        condition =
          \<lparr>cond_Type = ''Ready'',
           cond_Status = ConditionTrue,
           cond_Reason = ''DeploymentReady'',
           cond_Message =
             ''Deployment has ''
             @ fmt_d (ds_AvailableReplicas (dep_Status deployment))
             @ ''/'' @ fmt_d (Replicas (Spec webapp))
             @ '' replicas available'',
           cond_LastTransitionTime = now\<rparr>;
        condition =
          (if ds_AvailableReplicas (dep_Status deployment) \<noteq> Replicas (Spec webapp)
           then condition\<lparr>cond_Status := ConditionFalse, cond_Reason := ''DeploymentNotReady''\<rparr>
           else condition);
        webapp = webapp\<lparr>Status := (Status webapp)\<lparr>Conditions := [condition]\<rparr>\<rparr>
    in case StatusUpdateWebApp webapp s of
         (Some err, s) \<Rightarrow> (Inl (StoreFailure err), s)
       | (None, s) \<Rightarrow> (Inr \<lparr>Requeue = False, RequeueAfter = 30 * Second\<rparr>, s))"
  by (simp add: step5_def status_for_def Let_def status_overwrite)

lemma Reconcile_steps:
  "Reconcile now req s =
     (case GetWebApp req s of
        (Inl err, s) \<Rightarrow>
          if err = NotFound then (Inr \<lparr>Requeue = False, RequeueAfter = 0\<rparr>, s)
          else (Inl (StoreFailure err), s)
      | (Inr webapp, s) \<Rightarrow> step2 now webapp s)"
  unfolding Reconcile_def step2_def step3_def step4_def step5_block IsNotFound_def keyOf_def Let_def
  by (rule refl)

lemma Reconcile_create_workload:
  assumes ff: "fault_free 3 (faults s)"
    and w: "webapps s req = Some w" and k: "keyOf (ObjectMeta w) = req"
    and d: "deployments s req = None"
  shows "Reconcile now req s =
     (Inr \<lparr>Requeue = True, RequeueAfter = 0\<rparr>,
      s\<lparr>deployments := (deployments s)(req \<mapsto> deploymentForWebApp w),
        faults := drop 3 (faults s),
        trace := trace s @
          [\<lparr>call_verb = Get, call_kind = WebAppKind, call_key = req, call_error = None\<rparr>,
           \<lparr>call_verb = Get, call_kind = DeploymentKind, call_key = req, call_error = Some NotFound\<rparr>,
           \<lparr>call_verb = Create, call_kind = DeploymentKind, call_key = req, call_error = None\<rparr>]\<rparr>)"
proof -
  let ?s1 = "record_call Get WebAppKind req None s"
  let ?s2 = "record_call Get DeploymentKind req (Some NotFound) ?s1"
  have n0: "next_fault s = None" using ff by (rule fault_free_next) simp
  have f1: "fault_free 2 (faults ?s1)" using fault_free_record_call [OF ff] by simp
  have n1: "next_fault ?s1 = None" using f1 by (rule fault_free_next) simp
  have f2: "fault_free 1 (faults ?s2)" using fault_free_record_call [OF f1] by simp
  have n2: "next_fault ?s2 = None" using f2 by (rule fault_free_next) simp
  have g1: "GetWebApp req s = (Inr w, ?s1)" using n0 w by (rule GetWebApp_found)
  have g2: "GetDeployment req ?s1 = (Inl NotFound, ?s2)" using n1 d by (simp add: GetDeployment_absent)
  have g3: "CreateDeployment (deploymentForWebApp w) ?s2 =
      (None, record_call Create DeploymentKind req None
               (?s2\<lparr>deployments := (deployments ?s2)(req \<mapsto> deploymentForWebApp w)\<rparr>))"
    using CreateDeployment_fresh [OF n2, of "deploymentForWebApp w"] d k
    by (simp add: keyOf_deploymentForWebApp)
  have "Reconcile now req s =
      (Inr \<lparr>Requeue = True, RequeueAfter = 0\<rparr>,
       record_call Create DeploymentKind req None
               (?s2\<lparr>deployments := (deployments ?s2)(req \<mapsto> deploymentForWebApp w)\<rparr>))"
    unfolding Reconcile_def
    by (simp add: g1 key_unfold [OF k] g2 g3 Let_def IsNotFound_def)
  then show ?thesis
    by (simp add: record_call_def tl3)
qed

lemma Reconcile_status_pass:
  assumes ff: "fault_free 4 (faults s)"
    and w: "webapps s req = Some w" and k: "keyOf (ObjectMeta w) = req"
    and d: "deployments s req = Some d" and r: "ds_Replicas (dep_Spec d) = Some (Replicas (Spec w))"
    and v: "services s req = Some svc"
  shows "Reconcile now req s =
     (Inr \<lparr>Requeue = False, RequeueAfter = 30 * Second\<rparr>,
      s\<lparr>webapps := (webapps s)(req \<mapsto> w\<lparr>Status := status_for now w d\<rparr>),
        faults := drop 4 (faults s),
        trace := trace s @
          [\<lparr>call_verb = Get, call_kind = WebAppKind, call_key = req, call_error = None\<rparr>,
           \<lparr>call_verb = Get, call_kind = DeploymentKind, call_key = req, call_error = None\<rparr>,
           \<lparr>call_verb = Get, call_kind = ServiceKind, call_key = req, call_error = None\<rparr>,
           \<lparr>call_verb = StatusUpdate, call_kind = WebAppKind, call_key = req, call_error = None\<rparr>]\<rparr>)"
proof -
  let ?s1 = "record_call Get WebAppKind req None s"
  let ?s2 = "record_call Get DeploymentKind req None ?s1"
  let ?s3 = "record_call Get ServiceKind req None ?s2"
  let ?w = "w\<lparr>Status := status_for now w d\<rparr>"
  have n0: "next_fault s = None" using ff by (rule fault_free_next) simp
  have f1: "fault_free 3 (faults ?s1)" using fault_free_record_call [OF ff] by simp
  have n1: "next_fault ?s1 = None" using f1 by (rule fault_free_next) simp
  have f2: "fault_free 2 (faults ?s2)" using fault_free_record_call [OF f1] by simp
  have n2: "next_fault ?s2 = None" using f2 by (rule fault_free_next) simp
  have f3: "fault_free 1 (faults ?s3)" using fault_free_record_call [OF f2] by simp
  have n3: "next_fault ?s3 = None" using f3 by (rule fault_free_next) simp
  have g1: "GetWebApp req s = (Inr w, ?s1)" using n0 w by (rule GetWebApp_found)
  have g2: "GetDeployment req ?s1 = (Inr d, ?s2)" using n1 d by (simp add: GetDeployment_found)
  have g3: "GetService req ?s2 = (Inr svc, ?s3)" using n2 v by (simp add: GetService_found)
  have g4: "StatusUpdateWebApp ?w ?s3 =
     (None, record_call StatusUpdate WebAppKind req None (?s3\<lparr>webapps := (webapps ?s3)(req \<mapsto> ?w)\<rparr>))"
    using StatusUpdateWebApp_present [OF n3, of ?w w] k w by simp
  have "Reconcile now req s =
      (Inr \<lparr>Requeue = False, RequeueAfter = 30 * Second\<rparr>,
       record_call StatusUpdate WebAppKind req None (?s3\<lparr>webapps := (webapps ?s3)(req \<mapsto> ?w)\<rparr>))"
    by (simp add: Reconcile_steps g1 step2_def k g2 step3_def r step4_def g3 step5_def g4)
  then show ?thesis
    by (simp add: record_call_def tl4)
qed

lemma Reconcile_create_exposure:
  assumes ff: "fault_free 4 (faults s)"
    and w: "webapps s req = Some w" and k: "keyOf (ObjectMeta w) = req"
    and d: "deployments s req = Some d" and r: "ds_Replicas (dep_Spec d) = Some (Replicas (Spec w))"
    and v: "services s req = None"
  shows "Reconcile now req s =
     (Inr \<lparr>Requeue = True, RequeueAfter = 0\<rparr>,
      s\<lparr>services := (services s)(req \<mapsto> serviceForWebApp w),
        faults := drop 4 (faults s),
        trace := trace s @
          [\<lparr>call_verb = Get, call_kind = WebAppKind, call_key = req, call_error = None\<rparr>,
           \<lparr>call_verb = Get, call_kind = DeploymentKind, call_key = req, call_error = None\<rparr>,
           \<lparr>call_verb = Get, call_kind = ServiceKind, call_key = req, call_error = Some NotFound\<rparr>,
           \<lparr>call_verb = Create, call_kind = ServiceKind, call_key = req, call_error = None\<rparr>]\<rparr>)"
proof -
  let ?s1 = "record_call Get WebAppKind req None s"
  let ?s2 = "record_call Get DeploymentKind req None ?s1"
  let ?s3 = "record_call Get ServiceKind req (Some NotFound) ?s2"
  have n0: "next_fault s = None" using ff by (rule fault_free_next) simp
  have f1: "fault_free 3 (faults ?s1)" using fault_free_record_call [OF ff] by simp
  have n1: "next_fault ?s1 = None" using f1 by (rule fault_free_next) simp
  have f2: "fault_free 2 (faults ?s2)" using fault_free_record_call [OF f1] by simp
  have n2: "next_fault ?s2 = None" using f2 by (rule fault_free_next) simp
  have f3: "fault_free 1 (faults ?s3)" using fault_free_record_call [OF f2] by simp
  have n3: "next_fault ?s3 = None" using f3 by (rule fault_free_next) simp
  have g1: "GetWebApp req s = (Inr w, ?s1)" using n0 w by (rule GetWebApp_found)
  have g2: "GetDeployment req ?s1 = (Inr d, ?s2)" using n1 d by (simp add: GetDeployment_found)
  have g3: "GetService req ?s2 = (Inl NotFound, ?s3)" using n2 v by (simp add: GetService_absent)
  have g4: "CreateService (serviceForWebApp w) ?s3 =
     (None, record_call Create ServiceKind req None
              (?s3\<lparr>services := (services ?s3)(req \<mapsto> serviceForWebApp w)\<rparr>))"
    using CreateService_fresh [OF n3, of "serviceForWebApp w"] v k
    by (simp add: keyOf_serviceForWebApp)
  have "Reconcile now req s =
      (Inr \<lparr>Requeue = True, RequeueAfter = 0\<rparr>,
       record_call Create ServiceKind req None
              (?s3\<lparr>services := (services ?s3)(req \<mapsto> serviceForWebApp w)\<rparr>))"
    by (simp add: Reconcile_steps g1 step2_def k g2 step3_def r step4_def g3 g4)
  then show ?thesis
    by (simp add: record_call_def tl4)
qed

lemma Reconcile_update_replicas:
  assumes ff: "fault_free 3 (faults s)"
    and w: "webapps s req = Some w" and k: "keyOf (ObjectMeta w) = req"
    and d: "deployments s req = Some d" and kd: "keyOf (dep_ObjectMeta d) = req"
    and r: "ds_Replicas (dep_Spec d) = Some n" and ne: "n \<noteq> Replicas (Spec w)"
  shows "Reconcile now req s =
     (Inr \<lparr>Requeue = True, RequeueAfter = 0\<rparr>,
      s\<lparr>deployments := (deployments s)
           (req \<mapsto> d\<lparr>dep_Spec := (dep_Spec d)\<lparr>ds_Replicas := Some (Replicas (Spec w))\<rparr>\<rparr>),
        faults := drop 3 (faults s),
        trace := trace s @
          [\<lparr>call_verb = Get, call_kind = WebAppKind, call_key = req, call_error = None\<rparr>,
           \<lparr>call_verb = Get, call_kind = DeploymentKind, call_key = req, call_error = None\<rparr>,
           \<lparr>call_verb = Update, call_kind = DeploymentKind, call_key = req, call_error = None\<rparr>]\<rparr>)"
proof -
  let ?s1 = "record_call Get WebAppKind req None s"
  let ?s2 = "record_call Get DeploymentKind req None ?s1"
  let ?d = "d\<lparr>dep_Spec := (dep_Spec d)\<lparr>ds_Replicas := Some (Replicas (Spec w))\<rparr>\<rparr>"
  have n0: "next_fault s = None" using ff by (rule fault_free_next) simp
  have f1: "fault_free 2 (faults ?s1)" using fault_free_record_call [OF ff] by simp
  have n1: "next_fault ?s1 = None" using f1 by (rule fault_free_next) simp
  have f2: "fault_free 1 (faults ?s2)" using fault_free_record_call [OF f1] by simp
  have n2: "next_fault ?s2 = None" using f2 by (rule fault_free_next) simp
  have g1: "GetWebApp req s = (Inr w, ?s1)" using n0 w by (rule GetWebApp_found)
  have g2: "GetDeployment req ?s1 = (Inr d, ?s2)" using n1 d by (simp add: GetDeployment_found)
  have g3: "UpdateDeployment ?d ?s2 =
     (None, record_call Update DeploymentKind req None
              (?s2\<lparr>deployments := (deployments ?s2)(req \<mapsto> ?d)\<rparr>))"
    using UpdateDeployment_present [OF n2, of ?d d] d kd by simp
  have "Reconcile now req s =
      (Inr \<lparr>Requeue = True, RequeueAfter = 0\<rparr>,
       record_call Update DeploymentKind req None
              (?s2\<lparr>deployments := (deployments ?s2)(req \<mapsto> ?d)\<rparr>))"
    using ne by (simp add: Reconcile_steps g1 step2_def k g2 step3_def r g3)
  then show ?thesis
    by (simp add: record_call_def tl3)
qed

section \<open>Every pass stops at its first failing call\<close>

lemma tail_ok_last:
  assumes "trace s' = trace s @ [c]"
    and "\<And>e. call_error c = Some e \<Longrightarrow> \<not> (call_verb c = Get \<and> e = NotFound) \<Longrightarrow>
           r = Inl (StoreFailure e) \<and> same_objects s s'"
  shows "tail_ok s (r, s')"
  unfolding tail_ok_def pass_ok_def using assms by auto

lemma tail_ok_none: "tail_ok s (r, s)"
  unfolding tail_ok_def pass_ok_def by simp

lemma tail_ok_get:
  assumes t: "tail_ok s1 p"
    and g: "trace s1 = trace s @ [g]" "call_verb g = Get"
      "call_error g = None \<or> call_error g = Some NotFound"
    and o: "same_objects s s1"
  shows "tail_ok s p"
proof -
  from t obtain calls where c: "trace (snd p) = trace s1 @ calls"
    and p: "pass_ok calls (fst p) (same_objects s1 (snd p))"
    unfolding tail_ok_def by blast
  have "pass_ok (g # calls) (fst p) (same_objects s (snd p))"
    unfolding pass_ok_def
  proof (intro allI impI)
    fix c e
    assume m: "c \<in> set (g # calls)" and e: "call_error c = Some e"
      and n: "\<not> (call_verb c = Get \<and> e = NotFound)"
    from g(2,3) e n have "c \<noteq> g" by auto
    with m have mc: "c \<in> set calls" by simp
    with p e n have r: "fst p = Inl (StoreFailure e)" "last calls = c"
      "\<forall>q \<in> set (butlast calls). call_verb q = Get" "same_objects s1 (snd p)"
      unfolding pass_ok_def by blast+
    from mc have ne: "calls \<noteq> []" by auto
    show "fst p = Inl (StoreFailure e) \<and> last (g # calls) = c \<and>
          (\<forall>q \<in> set (butlast (g # calls)). call_verb q = Get) \<and> same_objects s (snd p)"
      using r ne g(2) same_objects_trans [OF o r(4)] by simp
  qed
  moreover have "trace (snd p) = trace s @ (g # calls)"
    using c g(1) by simp
  ultimately show ?thesis
    unfolding tail_ok_def by blast
qed

lemma step5_ok: "tail_ok s (step5 now w d s)"
proof (cases "StatusUpdateWebApp (w\<lparr>Status := status_for now w d\<rparr>) s")
  case (Pair e s')
  from StatusUpdateWebApp_call [OF Pair] show ?thesis
    by (cases e) (auto simp: step5_def Pair intro!: tail_ok_last)
qed

lemma step4_ok: "tail_ok s (step4 now w d s)"
proof (cases "GetService (keyOf (ObjectMeta w)) s")
  case (Pair r s1)
  have s1: "s1 = record_call Get ServiceKind (keyOf (ObjectMeta w)) (error_of r) s"
    using Get_snd(3) [of "keyOf (ObjectMeta w)" s] by (simp add: Pair)
  show ?thesis
  proof (cases r)
    case (Inr svc)
    have "tail_ok s1 (step5 now w d s1)" by (rule step5_ok)
    then have "tail_ok s (step5 now w d s1)"
      by (rule tail_ok_get) (simp add: s1 Inr error_of_def)+
    then show ?thesis by (simp add: step4_def Pair Inr)
  next
    case (Inl err)
    show ?thesis
    proof (cases "err = NotFound")
      case False
      then show ?thesis
        by (auto simp: step4_def Pair Inl s1 error_of_def intro!: tail_ok_last)
    next
      case True
      obtain e s2 where c: "CreateService (serviceForWebApp w) s1 = (e, s2)"
        by (cases "CreateService (serviceForWebApp w) s1")
      have "tail_ok s1 (case e of None \<Rightarrow> Inr \<lparr>Requeue = True, RequeueAfter = 0\<rparr>
                                | Some err \<Rightarrow> Inl (StoreFailure err), s2)"
        using CreateService_call [OF c] by (cases e) (auto intro!: tail_ok_last)
      then have "tail_ok s (case e of None \<Rightarrow> Inr \<lparr>Requeue = True, RequeueAfter = 0\<rparr>
                                | Some err \<Rightarrow> Inl (StoreFailure err), s2)"
        by (rule tail_ok_get) (simp add: s1 Inl True error_of_def)+
      then show ?thesis
        by (cases e) (simp_all add: step4_def Pair Inl True c)
    qed
  qed
qed

lemma step3_ok: "tail_ok s (step3 now w d s)"
proof (cases "ds_Replicas (dep_Spec d)")
  case None
  then show ?thesis by (simp add: step3_def tail_ok_none)
next
  case (Some n)
  show ?thesis
  proof (cases "n = Replicas (Spec w)")
    case True
    then show ?thesis by (simp add: step3_def Some step4_ok)
  next
    case False
    let ?d = "d\<lparr>dep_Spec := (dep_Spec d)\<lparr>ds_Replicas := Some (Replicas (Spec w))\<rparr>\<rparr>"
    obtain e s1 where c: "UpdateDeployment ?d s = (e, s1)"
      by (cases "UpdateDeployment ?d s")
    from UpdateDeployment_call [OF c] show ?thesis
      using False by (cases e) (auto simp: step3_def Some c intro!: tail_ok_last)
  qed
qed

lemma step2_ok: "tail_ok s (step2 now w s)"
proof (cases "GetDeployment (keyOf (ObjectMeta w)) s")
  case (Pair r s1)
  have s1: "s1 = record_call Get DeploymentKind (keyOf (ObjectMeta w)) (error_of r) s"
    using Get_snd(2) [of "keyOf (ObjectMeta w)" s] by (simp add: Pair)
  show ?thesis
  proof (cases r)
    case (Inr d)
    have "tail_ok s1 (step3 now w d s1)" by (rule step3_ok)
    then have "tail_ok s (step3 now w d s1)"
      by (rule tail_ok_get) (simp add: s1 Inr error_of_def)+
    then show ?thesis by (simp add: step2_def Pair Inr)
  next
    case (Inl err)
    show ?thesis
    proof (cases "err = NotFound")
      case False
      then show ?thesis
        by (auto simp: step2_def Pair Inl s1 error_of_def intro!: tail_ok_last)
    next
      case True
      obtain e s2 where c: "CreateDeployment (deploymentForWebApp w) s1 = (e, s2)"
        by (cases "CreateDeployment (deploymentForWebApp w) s1")
      have "tail_ok s1 (case e of None \<Rightarrow> Inr \<lparr>Requeue = True, RequeueAfter = 0\<rparr>
                                | Some err \<Rightarrow> Inl (StoreFailure err), s2)"
        using CreateDeployment_call [OF c] by (cases e) (auto intro!: tail_ok_last)
      then have "tail_ok s (case e of None \<Rightarrow> Inr \<lparr>Requeue = True, RequeueAfter = 0\<rparr>
                                | Some err \<Rightarrow> Inl (StoreFailure err), s2)"
        by (rule tail_ok_get) (simp add: s1 Inl True error_of_def)+
      then show ?thesis
        by (cases e) (simp_all add: step2_def Pair Inl True c)
    qed
  qed
qed

lemma Reconcile_ok: "tail_ok s (Reconcile now req s)"
proof (cases "GetWebApp req s")
  case (Pair r s1)
  have s1: "s1 = record_call Get WebAppKind req (error_of r) s"
    using Get_snd(1) [of req s] by (simp add: Pair)
  show ?thesis
  proof (cases r)
    case (Inr w)
    have "tail_ok s1 (step2 now w s1)" by (rule step2_ok)
    then have "tail_ok s (step2 now w s1)"
      by (rule tail_ok_get) (simp add: s1 Inr error_of_def)+
    then show ?thesis by (simp add: Reconcile_steps Pair Inr)
  next
    case (Inl err)
    then show ?thesis
      by (auto simp: Reconcile_steps Pair s1 error_of_def intro!: tail_ok_last)
  qed
qed

section \<open>Reaching STEP 4, and the nil dereference of STEP 3\<close>

lemma step4_first_call:
  "\<exists>e rest. trace (snd (step4 now w d s)) =
     trace s @ \<lparr>call_verb = Get, call_kind = ServiceKind, call_key = keyOf (ObjectMeta w),
                call_error = e\<rparr> # rest"
proof (cases "GetService (keyOf (ObjectMeta w)) s")
  case (Pair r s1)
  have t1: "trace s1 = trace s @ [\<lparr>call_verb = Get, call_kind = ServiceKind,
              call_key = keyOf (ObjectMeta w), call_error = error_of r\<rparr>]"
    using Get_snd(3) [of "keyOf (ObjectMeta w)" s] by (simp add: Pair)
  show ?thesis
  proof (cases r)
    case (Inr svc)
    obtain e s2 where c: "StatusUpdateWebApp (w\<lparr>Status := status_for now w d\<rparr>) s1 = (e, s2)"
      by (cases "StatusUpdateWebApp (w\<lparr>Status := status_for now w d\<rparr>) s1")
    have "trace (snd (step4 now w d s)) = trace s2"
      by (cases e) (simp_all add: step4_def Pair Inr step5_def c)
    with StatusUpdateWebApp_call [OF c] t1 show ?thesis
      by simp
  next
    case (Inl err)
    show ?thesis
    proof (cases "err = NotFound")
      case False
      then show ?thesis
        by (simp add: step4_def Pair Inl t1)
    next
      case True
      obtain e s2 where c: "CreateService (serviceForWebApp w) s1 = (e, s2)"
        by (cases "CreateService (serviceForWebApp w) s1")
      have "trace (snd (step4 now w d s)) = trace s2"
        by (cases e) (simp_all add: step4_def Pair Inl True c)
      with CreateService_call [OF c] t1 show ?thesis
        by simp
    qed
  qed
qed

lemma Reconcile_reaches_step4:
  assumes ff: "fault_free 2 (faults s)"
    and w: "webapps s req = Some w" and k: "keyOf (ObjectMeta w) = req"
    and d: "deployments s req = Some d" and r: "ds_Replicas (dep_Spec d) = Some (Replicas (Spec w))"
  shows "\<exists>e rest. pass_calls s (snd (Reconcile now req s)) =
     [\<lparr>call_verb = Get, call_kind = WebAppKind, call_key = req, call_error = None\<rparr>,
      \<lparr>call_verb = Get, call_kind = DeploymentKind, call_key = req, call_error = None\<rparr>,
      \<lparr>call_verb = Get, call_kind = ServiceKind, call_key = req, call_error = e\<rparr>] @ rest"
proof -
  let ?s1 = "record_call Get WebAppKind req None s"
  let ?s2 = "record_call Get DeploymentKind req None ?s1"
  have n0: "next_fault s = None" using ff by (rule fault_free_next) simp
  have f1: "fault_free 1 (faults ?s1)" using fault_free_record_call [OF ff] by simp
  have n1: "next_fault ?s1 = None" using f1 by (rule fault_free_next) simp
  have g1: "GetWebApp req s = (Inr w, ?s1)" using n0 w by (rule GetWebApp_found)
  have g2: "GetDeployment req ?s1 = (Inr d, ?s2)" using n1 d by (simp add: GetDeployment_found)
  have e: "Reconcile now req s = step4 now w d ?s2"
    by (simp add: Reconcile_steps g1 step2_def k g2 step3_def r)
  from step4_first_call [of now w d ?s2] obtain e rest where
    "trace (snd (step4 now w d ?s2)) =
       trace ?s2 @ \<lparr>call_verb = Get, call_kind = ServiceKind, call_key = keyOf (ObjectMeta w),
                     call_error = e\<rparr> # rest"
    by blast
  then have "pass_calls s (snd (Reconcile now req s)) =
     [\<lparr>call_verb = Get, call_kind = WebAppKind, call_key = req, call_error = None\<rparr>,
      \<lparr>call_verb = Get, call_kind = DeploymentKind, call_key = req, call_error = None\<rparr>,
      \<lparr>call_verb = Get, call_kind = ServiceKind, call_key = req, call_error = e\<rparr>] @ rest"
    by (simp add: e pass_calls_def k)
  then show ?thesis by blast
qed

lemma step4_no_panic: "fst (step4 now w d s) \<noteq> Inl NilPointerDereference"
  by (simp add: step4_def step5_def split: prod.splits sum.splits option.splits)

lemma Get_found:
  "fst (GetWebApp key s) = Inr w \<Longrightarrow> webapps s key = Some w"
  "fst (GetDeployment key s) = Inr d \<Longrightarrow> deployments s key = Some d"
  by (simp_all add: GetWebApp_def GetDeployment_def Let_def split: option.splits)

lemma Reconcile_panic:
  assumes "fst (Reconcile now req s) = Inl NilPointerDereference"
  shows "\<exists>w d. webapps s req = Some w \<and> deployments s (keyOf (ObjectMeta w)) = Some d \<and>
           ds_Replicas (dep_Spec d) = None"
proof (cases "GetWebApp req s")
  case (Pair r s1)
  have s1: "s1 = record_call Get WebAppKind req (error_of r) s"
    using Get_snd(1) [of req s] by (simp add: Pair)
  show ?thesis
  proof (cases r)
    case (Inl err)
    with assms Pair show ?thesis by (simp add: Reconcile_steps split: if_splits)
  next
    case (Inr w)
    have w: "webapps s req = Some w"
      using Get_found(1) [of req s w] by (simp add: Pair Inr)
    obtain r2 s2 where g2: "GetDeployment (keyOf (ObjectMeta w)) s1 = (r2, s2)"
      by (cases "GetDeployment (keyOf (ObjectMeta w)) s1")
    show ?thesis
    proof (cases r2)
      case (Inl err)
      with assms Pair Inr g2 show ?thesis
        by (simp add: Reconcile_steps step2_def split: if_splits prod.splits option.splits)
    next
      case d: (Inr d)
      have "deployments s1 (keyOf (ObjectMeta w)) = Some d"
        using Get_found(2) [of "keyOf (ObjectMeta w)" s1 d] by (simp add: g2 d)
      then have dd: "deployments s (keyOf (ObjectMeta w)) = Some d"
        by (simp add: s1)
      have "ds_Replicas (dep_Spec d) = None"
        using assms step4_no_panic [of now w d s2]
        by (simp add: Reconcile_steps Pair Inr step2_def g2 d step3_def
              split: option.splits if_splits prod.splits)
      with w dd show ?thesis by blast
    qed
  qed
qed

lemma Reconcile_nil_replicas:
  assumes ff: "fault_free 2 (faults s)"
    and w: "webapps s req = Some w" and k: "keyOf (ObjectMeta w) = req"
    and d: "deployments s req = Some d" and r: "ds_Replicas (dep_Spec d) = None"
  shows "fst (Reconcile now req s) = Inl NilPointerDereference"
proof -
  let ?s1 = "record_call Get WebAppKind req None s"
  let ?s2 = "record_call Get DeploymentKind req None ?s1"
  have n0: "next_fault s = None" using ff by (rule fault_free_next) simp
  have f1: "fault_free 1 (faults ?s1)" using fault_free_record_call [OF ff] by simp
  have n1: "next_fault ?s1 = None" using f1 by (rule fault_free_next) simp
  have g1: "GetWebApp req s = (Inr w, ?s1)" using n0 w by (rule GetWebApp_found)
  have g2: "GetDeployment req ?s1 = (Inr d, ?s2)" using n1 d by (simp add: GetDeployment_found)
  show ?thesis
    by (simp add: Reconcile_steps g1 step2_def k g2 step3_def r)
qed

section \<open>Facts about the example clusters\<close>

lemma decimal_3: "decimal 3 = ''3''"
  by (simp add: decimal.simps)

lemma fmt_d_3: "fmt_d 3 = ''3''"
  by (simp add: fmt_d_def decimal_3)

lemma ex_converged_facts:
  "fault_free 4 (faults ex_converged)"
  "webapps ex_converged ex_key = Some ex_webapp"
  "keyOf (ObjectMeta ex_webapp) = ex_key"
  "deployments ex_converged ex_key = Some ex_deployment"
  "ds_Replicas (dep_Spec ex_deployment) = Some (Replicas (Spec ex_webapp))"
  "services ex_converged ex_key = Some (serviceForWebApp ex_webapp)"
  by (simp_all add: ex_converged_def ex_key_def ex_webapp_def ex_deployment_def keyOf_def
        emptyMeta_def deploymentForWebApp_def Let_def)

lemma ex_fresh_facts:
  "fault_free n (faults ex_fresh)"
  "webapps ex_fresh ex_key = Some ex_webapp"
  "keyOf (ObjectMeta ex_webapp) = ex_key"
  "deployments ex_fresh ex_key = None"
  "services ex_fresh ex_key = None"
  by (simp_all add: ex_fresh_def ex_key_def ex_webapp_def keyOf_def emptyMeta_def)

lemma ex_deleted_facts:
  "fault_free 3 (faults ex_deleted)"
  "webapps ex_deleted ex_key = Some ex_webapp"
  "keyOf (ObjectMeta ex_webapp) = ex_key"
  "deployments ex_deleted ex_key = None"
  "services ex_deleted ex_key = Some (serviceForWebApp ex_webapp)"
  by (simp_all add: ex_deleted_def ex_converged_facts) (simp add: ex_converged_def)

lemma ex_ready_facts:
  "fault_free 4 (faults ex_ready)"
  "webapps ex_ready ex_key = Some (ex_webapp\<lparr>Status := status_for 100 ex_webapp ex_deployment\<rparr>)"
  "keyOf (ObjectMeta (ex_webapp\<lparr>Status := status_for 100 ex_webapp ex_deployment\<rparr>)) = ex_key"
  "deployments ex_ready ex_key = Some ex_deployment"
  "ds_Replicas (dep_Spec ex_deployment) =
     Some (Replicas (Spec (ex_webapp\<lparr>Status := status_for 100 ex_webapp ex_deployment\<rparr>)))"
  "services ex_ready ex_key = Some (serviceForWebApp ex_webapp)"
  by (simp_all add: ex_ready_def ex_converged_facts)

lemma ex_scaled_facts:
  "fault_free n (faults ex_scaled)"
  "webapps ex_scaled ex_key = Some ex_webapp5"
  "keyOf (ObjectMeta ex_webapp5) = ex_key"
  "deployments ex_scaled ex_key = Some ex_deployment"
  "keyOf (dep_ObjectMeta ex_deployment) = ex_key"
  "ds_Replicas (dep_Spec ex_deployment) = Some 3"
  "3 \<noteq> Replicas (Spec ex_webapp5)"
  by (simp_all add: ex_scaled_def ex_webapp5_def ex_converged_facts ex_deployment_def
        keyOf_deploymentForWebApp)
     (simp_all add: ex_converged_def ex_webapp_def deploymentForWebApp_def Let_def)

lemma ex_conflict_pass:
  "Reconcile 200 ex_key ex_conflict =
     (Inl (StoreFailure Conflict),
      ex_conflict\<lparr>faults := [],
        trace :=
          [\<lparr>call_verb = Get, call_kind = WebAppKind, call_key = ex_key, call_error = None\<rparr>,
           \<lparr>call_verb = Get, call_kind = DeploymentKind, call_key = ex_key, call_error = None\<rparr>,
           \<lparr>call_verb = Get, call_kind = ServiceKind, call_key = ex_key, call_error = None\<rparr>,
           \<lparr>call_verb = StatusUpdate, call_kind = WebAppKind, call_key = ex_key,
             call_error = Some Conflict\<rparr>]\<rparr>)"
proof -
  have k: "keyOf (ObjectMeta ex_webapp) = ex_key"
    by (rule ex_converged_facts)
  have r: "ds_Replicas (dep_Spec ex_deployment) = Some (Replicas (Spec ex_webapp))"
    by (rule ex_converged_facts)
  show ?thesis
    by (simp add: Reconcile_steps step2_def step3_def step4_def step5_def
          GetWebApp_def GetDeployment_def GetService_def StatusUpdateWebApp_def
          next_fault_def record_call_def error_of_def Let_def
          ex_conflict_def ex_converged_def k r)
qed

lemma ex_unset_facts:
  "fault_free 2 (faults ex_unset)"
  "webapps ex_unset ex_key = Some ex_webapp"
  "keyOf (ObjectMeta ex_webapp) = ex_key"
  "deployments ex_unset ex_key = Some ex_deployment_unset"
  "ds_Replicas (dep_Spec ex_deployment_unset) = None"
  by (simp_all add: ex_unset_def ex_deployment_unset_def ex_converged_facts)
     (simp_all add: ex_converged_def)

section \<open>Properties of the reconciler\<close>

text \<open>
  C1, as stated, fails: in a converged cluster (the workload has the replica count of the
  spec, the exposure exists, no store call fails) the pass ends with a status update of
  the declaration, a store write that succeeds and changes the stored declaration.
\<close>

theorem C1_counterexample:
  "webapps ex_converged ex_key = Some ex_webapp \<and>
   deployments ex_converged ex_key = Some ex_deployment \<and>
   ds_Replicas (dep_Spec ex_deployment) = Some (Replicas (Spec ex_webapp)) \<and>
   services ex_converged ex_key = Some (serviceForWebApp ex_webapp) \<and>
   faults ex_converged = [] \<and>
   map call_verb (pass_calls ex_converged (snd (Reconcile 200 ex_key ex_converged)))
     = [Get, Get, Get, StatusUpdate] \<and>
   map call_error (pass_calls ex_converged (snd (Reconcile 200 ex_key ex_converged)))
     = [None, None, None, None] \<and>
   webapps (snd (Reconcile 200 ex_key ex_converged)) ex_key \<noteq> webapps ex_converged ex_key"
proof -
  have e: "faults ex_converged = []"
    by (simp add: ex_converged_def)
  have c: "Conditions (Status ex_webapp) = []"
    by (simp add: ex_webapp_def)
  have n: "ex_webapp\<lparr>Status := status_for 200 ex_webapp ex_deployment\<rparr> \<noteq> ex_webapp"
  proof
    assume "ex_webapp\<lparr>Status := status_for 200 ex_webapp ex_deployment\<rparr> = ex_webapp"
    then have "Conditions (Status (ex_webapp\<lparr>Status := status_for 200 ex_webapp ex_deployment\<rparr>))
                = Conditions (Status ex_webapp)"
      by simp
    then show False
      by (simp add: c status_for_def)
  qed
  show ?thesis
    using n by (simp add: Reconcile_status_pass [OF ex_converged_facts] ex_converged_facts e pass_calls_def)
qed

text \<open>
  C1, amended. In a converged cluster, a pass whose store calls succeed makes exactly four
  calls: three reads and one write, the status update of the declaration. The workload and
  the exposure are left as they were, the metadata and the spec of the declaration are
  left as they were, no other declaration is touched, and the pass returns the re-queue
  directive of 30 seconds.
\<close>

theorem C1_converged_pass:
  assumes "fault_free 4 (faults s)"
    and "webapps s req = Some w" and "keyOf (ObjectMeta w) = req"
    and "deployments s req = Some d"
    and "ds_Replicas (dep_Spec d) = Some (Replicas (Spec w))"
    and "services s req = Some svc"
  shows "fst (Reconcile now req s) = Inr \<lparr>Requeue = False, RequeueAfter = 30 * Second\<rparr> \<and>
         deployments (snd (Reconcile now req s)) = deployments s \<and>
         services (snd (Reconcile now req s)) = services s \<and>
         pass_calls s (snd (Reconcile now req s)) =
           [\<lparr>call_verb = Get, call_kind = WebAppKind, call_key = req, call_error = None\<rparr>,
            \<lparr>call_verb = Get, call_kind = DeploymentKind, call_key = req, call_error = None\<rparr>,
            \<lparr>call_verb = Get, call_kind = ServiceKind, call_key = req, call_error = None\<rparr>,
            \<lparr>call_verb = StatusUpdate, call_kind = WebAppKind, call_key = req,
              call_error = None\<rparr>] \<and>
         map_option ObjectMeta (webapps (snd (Reconcile now req s)) req) = Some (ObjectMeta w) \<and>
         map_option Spec (webapps (snd (Reconcile now req s)) req) = Some (Spec w) \<and>
         (\<forall>key. key \<noteq> req \<longrightarrow> webapps (snd (Reconcile now req s)) key = webapps s key)"
  by (simp add: Reconcile_status_pass [OF assms] pass_calls_def)

theorem C1_converged_pass_witness:
  "fault_free 4 (faults ex_converged) \<and>
   webapps ex_converged ex_key = Some ex_webapp \<and>
   keyOf (ObjectMeta ex_webapp) = ex_key \<and>
   deployments ex_converged ex_key = Some ex_deployment \<and>
   ds_Replicas (dep_Spec ex_deployment) = Some (Replicas (Spec ex_webapp)) \<and>
   services ex_converged ex_key = Some (serviceForWebApp ex_webapp) \<and>
   fst (Reconcile 200 ex_key ex_converged) = Inr \<lparr>Requeue = False, RequeueAfter = 30000000000\<rparr> \<and>
   deployments (snd (Reconcile 200 ex_key ex_converged)) = deployments ex_converged \<and>
   services (snd (Reconcile 200 ex_key ex_converged)) = services ex_converged \<and>
   map call_verb (pass_calls ex_converged (snd (Reconcile 200 ex_key ex_converged)))
     = [Get, Get, Get, StatusUpdate] \<and>
   map_option Spec (webapps (snd (Reconcile 200 ex_key ex_converged)) ex_key) = Some (Spec ex_webapp) \<and>
   webapps (snd (Reconcile 200 ex_key ex_converged)) ex_absent_key = webapps ex_converged ex_absent_key"
proof -
  have k: "ex_absent_key \<noteq> ex_key"
    by (simp add: ex_absent_key_def ex_key_def)
  show ?thesis
    using C1_converged_pass [OF ex_converged_facts, of 200] k
    by (simp add: ex_converged_facts Second_def)
qed

text \<open>
  C2. The pass does not keep the timestamp of an unchanged condition. In the example the
  stored readiness condition is True since time 100; a pass at time 200 finds the workload
  ready still, and stores the condition True with the last-transition time 200: the state
  has not changed, the timestamp has.
\<close>

theorem C2_timestamp_refreshed_without_transition:
  "map_option (map cond_Status \<circ> Conditions \<circ> Status) (webapps ex_ready ex_key)
     = Some [ConditionTrue] \<and>
   map_option (map cond_LastTransitionTime \<circ> Conditions \<circ> Status) (webapps ex_ready ex_key)
     = Some [100] \<and>
   fst (Reconcile 200 ex_key ex_ready) = Inr \<lparr>Requeue = False, RequeueAfter = 30 * Second\<rparr> \<and>
   map_option (map cond_Status \<circ> Conditions \<circ> Status)
     (webapps (snd (Reconcile 200 ex_key ex_ready)) ex_key) = Some [ConditionTrue] \<and>
   map_option (map cond_LastTransitionTime \<circ> Conditions \<circ> Status)
     (webapps (snd (Reconcile 200 ex_key ex_ready)) ex_key) = Some [200]"
proof -
  have a: "ds_AvailableReplicas (dep_Status ex_deployment) = 3" "Replicas (Spec ex_webapp) = 3"
    by (simp_all add: ex_deployment_def ex_webapp_def)
  show ?thesis
    by (simp add: Reconcile_status_pass [OF ex_ready_facts] ex_ready_facts(2) status_for_def a)
qed

text \<open>
  C3. From a store that holds the declaration and neither dependent, with no failing store
  call, three passes suffice. The first creates the workload that the declaration
  synthesizes, the second creates the exposure, both asking for an immediate re-queue; the
  third, run after the cluster has reported \<open>a\<close> available replicas, writes the status and
  returns the 30 second directive. Afterwards the replica count of the workload is the one
  of the spec, the exposure exists, the status carries \<open>a\<close>, and the readiness condition is
  True exactly when \<open>a\<close> is the replica count of the spec.
\<close>

theorem C3_convergence:
  assumes ff: "fault_free 11 (faults s0)"
    and w: "webapps s0 req = Some w" and k: "keyOf (ObjectMeta w) = req"
    and d: "deployments s0 req = None" and v: "services s0 req = None"
  shows "let p1 = Reconcile ta req s0;
             p2 = Reconcile tb req (snd p1);
             p3 = Reconcile tc req (report_available req a (snd p2))
         in fst p1 = Inr \<lparr>Requeue = True, RequeueAfter = 0\<rparr> \<and>
            deployments (snd p1) req = Some (deploymentForWebApp w) \<and>
            map call_verb (pass_calls s0 (snd p1)) = [Get, Get, Create] \<and>
            fst p2 = Inr \<lparr>Requeue = True, RequeueAfter = 0\<rparr> \<and>
            services (snd p2) req = Some (serviceForWebApp w) \<and>
            map call_verb (pass_calls (snd p1) (snd p2)) = [Get, Get, Get, Create] \<and>
            fst p3 = Inr \<lparr>Requeue = False, RequeueAfter = 30 * Second\<rparr> \<and>
            map call_verb (pass_calls (report_available req a (snd p2)) (snd p3))
              = [Get, Get, Get, StatusUpdate] \<and>
            map_option (ds_Replicas \<circ> dep_Spec) (deployments (snd p3) req)
              = Some (Some (Replicas (Spec w))) \<and>
            services (snd p3) req = Some (serviceForWebApp w) \<and>
            map_option (AvailableReplicas \<circ> Status) (webapps (snd p3) req) = Some a \<and>
            map_option (map cond_Type \<circ> Conditions \<circ> Status) (webapps (snd p3) req)
              = Some [''Ready''] \<and>
            map_option (map cond_Status \<circ> Conditions \<circ> Status) (webapps (snd p3) req)
              = Some [if a = Replicas (Spec w) then ConditionTrue else ConditionFalse]"
proof -
  define s1 where "s1 = snd (Reconcile ta req s0)"
  define s2 where "s2 = snd (Reconcile tb req s1)"
  define s2' where "s2' = report_available req a s2"
  define s3 where "s3 = snd (Reconcile tc req s2')"
  define d' where "d' = (deploymentForWebApp w)\<lparr>dep_Status :=
              (dep_Status (deploymentForWebApp w))\<lparr>ds_AvailableReplicas := a\<rparr>\<rparr>"
  have rs: "ds_Replicas (dep_Spec (deploymentForWebApp w)) = Some (Replicas (Spec w))"
    by (simp add: deploymentForWebApp_def Let_def)
  have rd: "ds_Replicas (dep_Spec d') = Some (Replicas (Spec w))"
    by (simp add: d'_def rs)
  have f3: "fault_free 3 (faults s0)"
    using ff by (rule fault_free_mono) simp
  note p1 = Reconcile_create_workload [OF f3 w k d, of ta]
  have r1: "fst (Reconcile ta req s0) = Inr \<lparr>Requeue = True, RequeueAfter = 0\<rparr>"
    by (simp add: p1)
  have s1: "webapps s1 = webapps s0" "deployments s1 req = Some (deploymentForWebApp w)"
    "services s1 = services s0" "faults s1 = drop 3 (faults s0)"
    "map call_verb (pass_calls s0 s1) = [Get, Get, Create]"
    by (simp_all add: s1_def p1 pass_calls_def)
  have f4: "fault_free 4 (faults s1)"
    using fault_free_drop [of 3 4 "faults s0"] fault_free_mono [OF ff, of 7] by (simp add: s1)
  have w1: "webapps s1 req = Some w" and v1: "services s1 req = None"
    by (simp_all add: s1 w v)
  note p2 = Reconcile_create_exposure [OF f4 w1 k s1(2) rs v1, of tb]
  have r2: "fst (Reconcile tb req s1) = Inr \<lparr>Requeue = True, RequeueAfter = 0\<rparr>"
    by (simp add: p2)
  have s2: "webapps s2 = webapps s0" "deployments s2 req = Some (deploymentForWebApp w)"
    "services s2 req = Some (serviceForWebApp w)" "faults s2 = drop 7 (faults s0)"
    "map call_verb (pass_calls s1 s2) = [Get, Get, Get, Create]"
    by (simp_all add: s2_def p2 pass_calls_def s1)
  have f4': "fault_free 4 (faults s2')"
    using fault_free_drop [of 7 4 "faults s0"] ff by (simp add: s2'_def s2)
  have w2: "webapps s2' req = Some w" and v2: "services s2' req = Some (serviceForWebApp w)"
    by (simp_all add: s2'_def s2 w)
  have d2: "deployments s2' req = Some d'"
    unfolding s2'_def d'_def using s2(2) by (rule report_available_deployment)
  note p3 = Reconcile_status_pass [OF f4' w2 k d2 rd v2, of tc]
  have r3: "fst (Reconcile tc req s2') = Inr \<lparr>Requeue = False, RequeueAfter = 30 * Second\<rparr>"
    by (simp add: p3)
  have s3: "webapps s3 req = Some (w\<lparr>Status := status_for tc w d'\<rparr>)"
    "deployments s3 req = Some d'" "services s3 req = Some (serviceForWebApp w)"
    "map call_verb (pass_calls s2' s3) = [Get, Get, Get, StatusUpdate]"
    by (simp_all add: s3_def p3 pass_calls_def d2 v2)
  have a': "ds_AvailableReplicas (dep_Status d') = a"
    by (simp add: d'_def)
  have "fst (Reconcile ta req s0) = Inr \<lparr>Requeue = True, RequeueAfter = 0\<rparr> \<and>
        deployments s1 req = Some (deploymentForWebApp w) \<and>
        map call_verb (pass_calls s0 s1) = [Get, Get, Create] \<and>
        fst (Reconcile tb req s1) = Inr \<lparr>Requeue = True, RequeueAfter = 0\<rparr> \<and>
        services s2 req = Some (serviceForWebApp w) \<and>
        map call_verb (pass_calls s1 s2) = [Get, Get, Get, Create] \<and>
        fst (Reconcile tc req s2') = Inr \<lparr>Requeue = False, RequeueAfter = 30 * Second\<rparr> \<and>
        map call_verb (pass_calls s2' s3) = [Get, Get, Get, StatusUpdate] \<and>
        map_option (ds_Replicas \<circ> dep_Spec) (deployments s3 req)
          = Some (Some (Replicas (Spec w))) \<and>
        services s3 req = Some (serviceForWebApp w) \<and>
        map_option (AvailableReplicas \<circ> Status) (webapps s3 req) = Some a \<and>
        map_option (map cond_Type \<circ> Conditions \<circ> Status) (webapps s3 req) = Some [''Ready''] \<and>
        map_option (map cond_Status \<circ> Conditions \<circ> Status) (webapps s3 req)
          = Some [if a = Replicas (Spec w) then ConditionTrue else ConditionFalse]"
    by (simp add: r1 r2 r3 s1 s2 s3 rd a' status_for_def)
  then show ?thesis
    unfolding Let_def s1_def s2_def s2'_def s3_def .
qed

theorem C3_convergence_witness:
  "fault_free 11 (faults ex_fresh) \<and>
   webapps ex_fresh ex_key = Some ex_webapp \<and>
   keyOf (ObjectMeta ex_webapp) = ex_key \<and>
   deployments ex_fresh ex_key = None \<and>
   services ex_fresh ex_key = None \<and>
   (let p1 = Reconcile 1 ex_key ex_fresh;
        p2 = Reconcile 2 ex_key (snd p1);
        p3 = Reconcile 3 ex_key (report_available ex_key 3 (snd p2))
    in fst p1 = Inr \<lparr>Requeue = True, RequeueAfter = 0\<rparr> \<and>
       deployments (snd p1) ex_key = Some (deploymentForWebApp ex_webapp) \<and>
       map_option (ds_Replicas \<circ> dep_Spec) (deployments (snd p1) ex_key) = Some (Some 3) \<and>
       map_option (map c_Image \<circ> tmpl_Containers \<circ> ds_Template \<circ> dep_Spec)
         (deployments (snd p1) ex_key) = Some [''nginx:1.25''] \<and>
       map_option (map (map cp_ContainerPort \<circ> c_Ports) \<circ> tmpl_Containers \<circ> ds_Template
                     \<circ> dep_Spec) (deployments (snd p1) ex_key) = Some [[80]] \<and>
       map_option (map ref_Name \<circ> OwnerReferences \<circ> dep_ObjectMeta)
         (deployments (snd p1) ex_key) = Some [''nginx-app''] \<and>
       fst p2 = Inr \<lparr>Requeue = True, RequeueAfter = 0\<rparr> \<and>
       services (snd p2) ex_key = Some (serviceForWebApp ex_webapp) \<and>
       map_option (map ref_Name \<circ> OwnerReferences \<circ> svc_ObjectMeta)
         (services (snd p2) ex_key) = Some [''nginx-app''] \<and>
       fst p3 = Inr \<lparr>Requeue = False, RequeueAfter = 30000000000\<rparr> \<and>
       map_option (ds_Replicas \<circ> dep_Spec) (deployments (snd p3) ex_key) = Some (Some 3) \<and>
       map_option (AvailableReplicas \<circ> Status) (webapps (snd p3) ex_key) = Some 3 \<and>
       map_option (map cond_Status \<circ> Conditions \<circ> Status) (webapps (snd p3) ex_key)
         = Some [ConditionTrue])"
proof -
  have r: "Replicas (Spec ex_webapp) = 3"
    by (simp add: ex_webapp_def)
  have d: "ds_Replicas (dep_Spec (deploymentForWebApp ex_webapp)) = Some 3"
    "map c_Image (tmpl_Containers (ds_Template (dep_Spec (deploymentForWebApp ex_webapp))))
       = [''nginx:1.25'']"
    "map (map cp_ContainerPort \<circ> c_Ports)
       (tmpl_Containers (ds_Template (dep_Spec (deploymentForWebApp ex_webapp)))) = [[80]]"
    "map ref_Name (OwnerReferences (dep_ObjectMeta (deploymentForWebApp ex_webapp)))
       = [''nginx-app'']"
    "map ref_Name (OwnerReferences (svc_ObjectMeta (serviceForWebApp ex_webapp)))
       = [''nginx-app'']"
    by (simp_all add: deploymentForWebApp_def serviceForWebApp_def SetControllerReference_def
          emptyMeta_def ex_webapp_def Let_def)
  show ?thesis
    using C3_convergence [OF ex_fresh_facts, of 1 2 3 3]
    by (simp add: ex_fresh_facts Let_def r d Second_def)
qed

text \<open>
  C4. When the declaration exists, its workload is absent and the three store calls of the
  pass succeed, the pass creates the workload that \<open>deploymentForWebApp\<close> synthesizes from
  the declaration, whatever else the store holds, asks for an immediate re-queue, and makes
  no further call: a read of the declaration, a read of the workload answered NotFound and
  the creation are its whole trace.
\<close>

theorem C4_workload_created:
  assumes "fault_free 3 (faults s)"
    and "webapps s req = Some w" and "keyOf (ObjectMeta w) = req"
    and "deployments s req = None"
  shows "Reconcile now req s =
     (Inr \<lparr>Requeue = True, RequeueAfter = 0\<rparr>,
      s\<lparr>deployments := (deployments s)(req \<mapsto> deploymentForWebApp w),
        faults := drop 3 (faults s),
        trace := trace s @
          [\<lparr>call_verb = Get, call_kind = WebAppKind, call_key = req, call_error = None\<rparr>,
           \<lparr>call_verb = Get, call_kind = DeploymentKind, call_key = req,
             call_error = Some NotFound\<rparr>,
           \<lparr>call_verb = Create, call_kind = DeploymentKind, call_key = req,
             call_error = None\<rparr>]\<rparr>)"
  using assms by (rule Reconcile_create_workload)

theorem C4_workload_created_witness:
  "fault_free 3 (faults ex_deleted) \<and>
   webapps ex_deleted ex_key = Some ex_webapp \<and>
   keyOf (ObjectMeta ex_webapp) = ex_key \<and>
   deployments ex_deleted ex_key = None \<and>
   services ex_deleted ex_key = Some (serviceForWebApp ex_webapp) \<and>
   fst (Reconcile 200 ex_key ex_deleted) = Inr \<lparr>Requeue = True, RequeueAfter = 0\<rparr> \<and>
   deployments (snd (Reconcile 200 ex_key ex_deleted)) ex_key
     = Some (deploymentForWebApp ex_webapp) \<and>
   map call_verb (pass_calls ex_deleted (snd (Reconcile 200 ex_key ex_deleted)))
     = [Get, Get, Create]"
  using C4_workload_created [OF ex_deleted_facts(1-4), of 200]
  by (simp add: ex_deleted_facts pass_calls_def)

text \<open>
  C5. When the workload exists with a replica count other than the one of the spec, and
  the store calls succeed, the pass makes three calls, two reads and one update of the
  workload, which sets its replica count to the one of the spec and changes nothing else;
  it asks for an immediate re-queue and does not touch the exposure or the status. The
  following pass reads the declaration and the workload and then goes on to STEP 4: its
  third call is the read of the exposure.
\<close>

theorem C5_replicas_updated:
  assumes ff: "fault_free 5 (faults s)"
    and w: "webapps s req = Some w" and k: "keyOf (ObjectMeta w) = req"
    and d: "deployments s req = Some d" and kd: "keyOf (dep_ObjectMeta d) = req"
    and r: "ds_Replicas (dep_Spec d) = Some n" and ne: "n \<noteq> Replicas (Spec w)"
  shows "let p1 = Reconcile ta req s; p2 = Reconcile tb req (snd p1)
         in fst p1 = Inr \<lparr>Requeue = True, RequeueAfter = 0\<rparr> \<and>
            pass_calls s (snd p1) =
              [\<lparr>call_verb = Get, call_kind = WebAppKind, call_key = req, call_error = None\<rparr>,
               \<lparr>call_verb = Get, call_kind = DeploymentKind, call_key = req, call_error = None\<rparr>,
               \<lparr>call_verb = Update, call_kind = DeploymentKind, call_key = req,
                 call_error = None\<rparr>] \<and>
            deployments (snd p1) =
              (deployments s)(req \<mapsto> d\<lparr>dep_Spec := (dep_Spec d)
                                          \<lparr>ds_Replicas := Some (Replicas (Spec w))\<rparr>\<rparr>) \<and>
            webapps (snd p1) = webapps s \<and> services (snd p1) = services s \<and>
            map call_verb (take 3 (pass_calls (snd p1) (snd p2))) = [Get, Get, Get] \<and>
            map call_kind (take 3 (pass_calls (snd p1) (snd p2)))
              = [WebAppKind, DeploymentKind, ServiceKind]"
proof -
  define s1 where "s1 = snd (Reconcile ta req s)"
  let ?d = "d\<lparr>dep_Spec := (dep_Spec d)\<lparr>ds_Replicas := Some (Replicas (Spec w))\<rparr>\<rparr>"
  have f3: "fault_free 3 (faults s)"
    using ff by (rule fault_free_mono) simp
  note p1 = Reconcile_update_replicas [OF f3 w k d kd r ne, of ta]
  have s1: "webapps s1 = webapps s" "deployments s1 = (deployments s)(req \<mapsto> ?d)"
    "services s1 = services s" "faults s1 = drop 3 (faults s)"
    "pass_calls s s1 =
       [\<lparr>call_verb = Get, call_kind = WebAppKind, call_key = req, call_error = None\<rparr>,
        \<lparr>call_verb = Get, call_kind = DeploymentKind, call_key = req, call_error = None\<rparr>,
        \<lparr>call_verb = Update, call_kind = DeploymentKind, call_key = req, call_error = None\<rparr>]"
    by (simp_all add: s1_def p1 pass_calls_def)
  have f2: "fault_free 2 (faults s1)"
    using fault_free_drop [of 3 2 "faults s"] ff by (simp add: s1)
  have "\<exists>e rest. pass_calls s1 (snd (Reconcile tb req s1)) =
     [\<lparr>call_verb = Get, call_kind = WebAppKind, call_key = req, call_error = None\<rparr>,
      \<lparr>call_verb = Get, call_kind = DeploymentKind, call_key = req, call_error = None\<rparr>,
      \<lparr>call_verb = Get, call_kind = ServiceKind, call_key = req, call_error = e\<rparr>] @ rest"
    by (rule Reconcile_reaches_step4 [OF f2 _ k, of ?d]) (simp_all add: s1 w)
  then have t: "map call_verb (take 3 (pass_calls s1 (snd (Reconcile tb req s1)))) = [Get, Get, Get]"
    "map call_kind (take 3 (pass_calls s1 (snd (Reconcile tb req s1))))
       = [WebAppKind, DeploymentKind, ServiceKind]"
    by auto
  have "fst (Reconcile ta req s) = Inr \<lparr>Requeue = True, RequeueAfter = 0\<rparr>"
    by (simp add: p1)
  then show ?thesis
    unfolding Let_def using s1 t by (simp add: s1_def)
qed

theorem C5_replicas_updated_witness:
  "fault_free 5 (faults ex_scaled) \<and>
   webapps ex_scaled ex_key = Some ex_webapp5 \<and>
   keyOf (ObjectMeta ex_webapp5) = ex_key \<and>
   deployments ex_scaled ex_key = Some ex_deployment \<and>
   keyOf (dep_ObjectMeta ex_deployment) = ex_key \<and>
   ds_Replicas (dep_Spec ex_deployment) = Some 3 \<and>
   3 \<noteq> Replicas (Spec ex_webapp5) \<and>
   (let p1 = Reconcile 1 ex_key ex_scaled; p2 = Reconcile 2 ex_key (snd p1)
    in fst p1 = Inr \<lparr>Requeue = True, RequeueAfter = 0\<rparr> \<and>
       map call_verb (pass_calls ex_scaled (snd p1)) = [Get, Get, Update] \<and>
       map_option (ds_Replicas \<circ> dep_Spec) (deployments (snd p1) ex_key) = Some (Some 5) \<and>
       map call_kind (take 3 (pass_calls (snd p1) (snd p2)))
         = [WebAppKind, DeploymentKind, ServiceKind])"
proof -
  have r: "Replicas (Spec ex_webapp5) = 5"
    by (simp add: ex_webapp5_def)
  show ?thesis
    using C5_replicas_updated [OF ex_scaled_facts, of 1 2]
    by (simp add: ex_scaled_facts Let_def r)
qed

text \<open>
  C6. A pass that reaches the status computation (the declaration, a workload with the
  replica count of the spec and the exposure are fetched, and the status write succeeds)
  stores a status whose available-replica count is the one the workload reports and whose
  conditions are exactly one condition of type Ready, True with reason DeploymentReady
  when the available replicas equal the replicas of the spec, False with reason
  DeploymentNotReady otherwise; the pass returns the re-queue directive of 30 seconds.
\<close>

theorem C6_status_written:
  assumes "fault_free 4 (faults s)"
    and "webapps s req = Some w" and "keyOf (ObjectMeta w) = req"
    and "deployments s req = Some d"
    and "ds_Replicas (dep_Spec d) = Some (Replicas (Spec w))"
    and "services s req = Some svc"
  shows "(case webapps (snd (Reconcile now req s)) req of
            None \<Rightarrow> False
          | Some w' \<Rightarrow>
           AvailableReplicas (Status w') = ds_AvailableReplicas (dep_Status d) \<and>
           map cond_Type (Conditions (Status w')) = [''Ready''] \<and>
           map cond_Status (Conditions (Status w')) =
             [if ds_AvailableReplicas (dep_Status d) = Replicas (Spec w)
              then ConditionTrue else ConditionFalse] \<and>
           map cond_Reason (Conditions (Status w')) =
             [if ds_AvailableReplicas (dep_Status d) = Replicas (Spec w)
              then ''DeploymentReady'' else ''DeploymentNotReady''] \<and>
           map cond_Message (Conditions (Status w')) =
             [''Deployment has '' @ fmt_d (ds_AvailableReplicas (dep_Status d)) @ ''/''
              @ fmt_d (Replicas (Spec w)) @ '' replicas available'']) \<and>
           fst (Reconcile now req s) = Inr \<lparr>Requeue = False, RequeueAfter = 30 * Second\<rparr>"
  by (simp add: Reconcile_status_pass [OF assms] status_for_def)

theorem C6_status_written_witness:
  "fault_free 4 (faults ex_converged) \<and>
   webapps ex_converged ex_key = Some ex_webapp \<and>
   keyOf (ObjectMeta ex_webapp) = ex_key \<and>
   deployments ex_converged ex_key = Some ex_deployment \<and>
   ds_Replicas (dep_Spec ex_deployment) = Some (Replicas (Spec ex_webapp)) \<and>
   services ex_converged ex_key = Some (serviceForWebApp ex_webapp) \<and>
   (case webapps (snd (Reconcile 200 ex_key ex_converged)) ex_key of
      None \<Rightarrow> False
    | Some w' \<Rightarrow>
      AvailableReplicas (Status w') = 3 \<and>
      map cond_Type (Conditions (Status w')) = [''Ready''] \<and>
      map cond_Status (Conditions (Status w')) = [ConditionTrue] \<and>
      map cond_Reason (Conditions (Status w')) = [''DeploymentReady''] \<and>
      map cond_Message (Conditions (Status w')) = [''Deployment has 3/3 replicas available'']) \<and>
   fst (Reconcile 200 ex_key ex_converged) = Inr \<lparr>Requeue = False, RequeueAfter = 30000000000\<rparr>"
proof -
  have a: "ds_AvailableReplicas (dep_Status ex_deployment) = 3" "Replicas (Spec ex_webapp) = 3"
    by (simp_all add: ex_deployment_def ex_webapp_def)
  show ?thesis
    using C6_status_written [OF ex_converged_facts, of 200]
    by (simp add: ex_converged_facts a fmt_d_3 Second_def split: option.splits)
qed

text \<open>
  C7. If a call to the store made by a pass has failed (any error of a create, an update
  or a status update, any error other than NotFound of a read), then the pass returns
  that error, the failing call is the last call of the pass and the calls before it are
  reads, and no object of the store has changed: the declarations, in particular, are
  as they were.
\<close>

theorem C7_failure_aborts:
  assumes "c \<in> set (pass_calls s (snd (Reconcile now req s)))"
    and "call_error c = Some e"
    and "\<not> (call_verb c = Get \<and> e = NotFound)"
  shows "fst (Reconcile now req s) = Inl (StoreFailure e) \<and>
         last (pass_calls s (snd (Reconcile now req s))) = c \<and>
         (\<forall>p \<in> set (butlast (pass_calls s (snd (Reconcile now req s)))). call_verb p = Get) \<and>
         webapps (snd (Reconcile now req s)) = webapps s \<and>
         deployments (snd (Reconcile now req s)) = deployments s \<and>
         services (snd (Reconcile now req s)) = services s"
proof -
  from Reconcile_ok [of s now req] obtain calls
    where t: "trace (snd (Reconcile now req s)) = trace s @ calls"
      and p: "pass_ok calls (fst (Reconcile now req s)) (same_objects s (snd (Reconcile now req s)))"
    unfolding tail_ok_def by blast
  have c: "pass_calls s (snd (Reconcile now req s)) = calls"
    by (simp add: pass_calls_def t)
  from p assms show ?thesis
    unfolding c pass_ok_def same_objects_def by blast
qed

theorem C7_failure_aborts_witness:
  "\<lparr>call_verb = StatusUpdate, call_kind = WebAppKind, call_key = ex_key,
     call_error = Some Conflict\<rparr>
     \<in> set (pass_calls ex_conflict (snd (Reconcile 200 ex_key ex_conflict))) \<and>
   fst (Reconcile 200 ex_key ex_conflict) = Inl (StoreFailure Conflict) \<and>
   last (pass_calls ex_conflict (snd (Reconcile 200 ex_key ex_conflict))) =
     \<lparr>call_verb = StatusUpdate, call_kind = WebAppKind, call_key = ex_key,
       call_error = Some Conflict\<rparr> \<and>
   map call_verb (butlast (pass_calls ex_conflict (snd (Reconcile 200 ex_key ex_conflict))))
     = [Get, Get, Get] \<and>
   webapps (snd (Reconcile 200 ex_key ex_conflict)) = webapps ex_conflict \<and>
   deployments (snd (Reconcile 200 ex_key ex_conflict)) = deployments ex_conflict \<and>
   services (snd (Reconcile 200 ex_key ex_conflict)) = services ex_conflict"
proof -
  let ?c = "\<lparr>call_verb = StatusUpdate, call_kind = WebAppKind, call_key = ex_key,
              call_error = Some Conflict\<rparr>"
  have t: "trace ex_conflict = []"
    by (simp add: ex_conflict_def ex_converged_def)
  have m: "?c \<in> set (pass_calls ex_conflict (snd (Reconcile 200 ex_key ex_conflict)))"
    by (simp add: ex_conflict_pass pass_calls_def t)
  have b: "map call_verb (butlast (pass_calls ex_conflict (snd (Reconcile 200 ex_key ex_conflict))))
     = [Get, Get, Get]"
    by (simp add: ex_conflict_pass pass_calls_def t)
  show ?thesis
    using C7_failure_aborts [OF m, of Conflict] m b by simp
qed

text \<open>
  C8. When the initial fetch of the declaration answers NotFound, the pass returns the
  empty result with no error; that fetch is its only call to the store, and no object of
  the store is changed.
\<close>

theorem C8_declaration_absent:
  assumes "fst (GetWebApp req s) = Inl NotFound"
  shows "Reconcile now req s =
           (Inr \<lparr>Requeue = False, RequeueAfter = 0\<rparr>,
            s\<lparr>faults := tl (faults s),
              trace := trace s @ [\<lparr>call_verb = Get, call_kind = WebAppKind, call_key = req,
                                   call_error = Some NotFound\<rparr>]\<rparr>) \<and>
         pass_calls s (snd (Reconcile now req s)) =
           [\<lparr>call_verb = Get, call_kind = WebAppKind, call_key = req,
             call_error = Some NotFound\<rparr>] \<and>
         same_objects s (snd (Reconcile now req s))"
proof -
  have g: "GetWebApp req s = (Inl NotFound, record_call Get WebAppKind req (Some NotFound) s)"
    using assms by (simp add: GetWebApp_def Let_def error_of_def)
  have r: "Reconcile now req s =
           (Inr \<lparr>Requeue = False, RequeueAfter = 0\<rparr>,
            s\<lparr>faults := tl (faults s),
              trace := trace s @ [\<lparr>call_verb = Get, call_kind = WebAppKind, call_key = req,
                                   call_error = Some NotFound\<rparr>]\<rparr>)"
    by (simp add: Reconcile_steps g record_call_def)
  show ?thesis
    by (simp add: r pass_calls_def same_objects_def)
qed

theorem C8_declaration_absent_witness:
  "fst (GetWebApp ex_absent_key ex_fresh) = Inl NotFound \<and>
   fst (Reconcile 200 ex_absent_key ex_fresh) = Inr \<lparr>Requeue = False, RequeueAfter = 0\<rparr> \<and>
   pass_calls ex_fresh (snd (Reconcile 200 ex_absent_key ex_fresh)) =
     [\<lparr>call_verb = Get, call_kind = WebAppKind, call_key = ex_absent_key,
       call_error = Some NotFound\<rparr>] \<and>
   same_objects ex_fresh (snd (Reconcile 200 ex_absent_key ex_fresh))"
proof -
  have h: "fst (GetWebApp ex_absent_key ex_fresh) = Inl NotFound"
    by (simp add: GetWebApp_def next_fault_def ex_fresh_def ex_absent_key_def ex_key_def Let_def)
  show ?thesis
    using h C8_declaration_absent [OF h, of 200]
    by (simp add: pass_calls_def same_objects_def)
qed

text \<open>
  C9. When the port of the spec is zero, the container port of the synthesized workload
  and the target port of the synthesized exposure are both 8080. For every declaration
  the port of the exposure is 80, and its selector is the label set of the workload (of
  the object, of its selector and of its pod template).
\<close>

theorem C9_ports_and_selector:
  "(Port (Spec webapp) = 0 \<longrightarrow>
      map cp_ContainerPort
        (concat (map c_Ports (tmpl_Containers (ds_Template (dep_Spec (deploymentForWebApp webapp))))))
        = [8080] \<and>
      map sp_TargetPort (ss_Ports (svc_Spec (serviceForWebApp webapp))) = [IntVal 8080]) \<and>
   map sp_Port (ss_Ports (svc_Spec (serviceForWebApp webapp))) = [80] \<and>
   ss_Selector (svc_Spec (serviceForWebApp webapp)) = Labels (dep_ObjectMeta (deploymentForWebApp webapp)) \<and>
   ds_Selector (dep_Spec (deploymentForWebApp webapp)) = Some (ss_Selector (svc_Spec (serviceForWebApp webapp))) \<and>
   Labels (tmpl_ObjectMeta (ds_Template (dep_Spec (deploymentForWebApp webapp))))
     = ss_Selector (svc_Spec (serviceForWebApp webapp))"
  by (simp add: deploymentForWebApp_def serviceForWebApp_def SetControllerReference_def
        emptyMeta_def Let_def)

theorem C9_ports_and_selector_witness:
  "Port (Spec ex_webapp_noport) = 0 \<and>
   map cp_ContainerPort
     (concat (map c_Ports
        (tmpl_Containers (ds_Template (dep_Spec (deploymentForWebApp ex_webapp_noport)))))) = [8080] \<and>
   map sp_TargetPort (ss_Ports (svc_Spec (serviceForWebApp ex_webapp_noport))) = [IntVal 8080] \<and>
   map sp_Port (ss_Ports (svc_Spec (serviceForWebApp ex_webapp_noport))) = [80]"
proof -
  have p: "Port (Spec ex_webapp_noport) = 0"
    by (simp add: ex_webapp_noport_def)
  show ?thesis
    using p C9_ports_and_selector [of ex_webapp_noport] by simp
qed

text \<open>
  C10. STEP 3 dereferences the replica count of the fetched workload unchecked. The
  workload that \<open>deploymentForWebApp\<close> synthesizes always has the field set, to the replica
  count of the spec; when the workload stored for the declaration has the field set, no
  pass ends in the nil dereference, whatever the store answers; when the field is unset
  and the two reads succeed, the pass ends in the nil dereference.
\<close>

theorem C10_replicas_dereference:
  "ds_Replicas (dep_Spec (deploymentForWebApp w)) = Some (Replicas (Spec w)) \<and>
   (webapps s req = Some w \<and> keyOf (ObjectMeta w) = req \<and> deployments s req = Some d \<and>
    ds_Replicas (dep_Spec d) \<noteq> None
      \<longrightarrow> fst (Reconcile now req s) \<noteq> Inl NilPointerDereference) \<and>
   (fault_free 2 (faults s') \<and> webapps s' req = Some w \<and> keyOf (ObjectMeta w) = req \<and>
    deployments s' req = Some d' \<and> ds_Replicas (dep_Spec d') = None
      \<longrightarrow> fst (Reconcile now req s') = Inl NilPointerDereference)"
proof (intro conjI impI)
  show "ds_Replicas (dep_Spec (deploymentForWebApp w)) = Some (Replicas (Spec w))"
    by (simp add: deploymentForWebApp_def Let_def)
next
  assume a: "webapps s req = Some w \<and> keyOf (ObjectMeta w) = req \<and> deployments s req = Some d \<and>
    ds_Replicas (dep_Spec d) \<noteq> None"
  show "fst (Reconcile now req s) \<noteq> Inl NilPointerDereference"
  proof
    assume "fst (Reconcile now req s) = Inl NilPointerDereference"
    from Reconcile_panic [OF this] a show False by auto
  qed
next
  assume "fault_free 2 (faults s') \<and> webapps s' req = Some w \<and> keyOf (ObjectMeta w) = req \<and>
    deployments s' req = Some d' \<and> ds_Replicas (dep_Spec d') = None"
  then show "fst (Reconcile now req s') = Inl NilPointerDereference"
    by (simp add: Reconcile_nil_replicas)
qed

theorem C10_replicas_dereference_witness:
  "webapps ex_converged ex_key = Some ex_webapp \<and> keyOf (ObjectMeta ex_webapp) = ex_key \<and>
   deployments ex_converged ex_key = Some ex_deployment \<and>
   ds_Replicas (dep_Spec ex_deployment) \<noteq> None \<and>
   fst (Reconcile 200 ex_key ex_converged) \<noteq> Inl NilPointerDereference \<and>
   fault_free 2 (faults ex_unset) \<and> webapps ex_unset ex_key = Some ex_webapp \<and>
   deployments ex_unset ex_key = Some ex_deployment_unset \<and>
   ds_Replicas (dep_Spec ex_deployment_unset) = None \<and>
   fst (Reconcile 200 ex_key ex_unset) = Inl NilPointerDereference"
  using C10_replicas_dereference
    [of ex_webapp ex_converged ex_key ex_deployment 200 ex_unset ex_deployment_unset]
  by (simp add: ex_converged_facts ex_unset_facts(1,2,4,5))

end
